theory Spec2Isabelle
  imports Complex_Main
begin

section \<open>JSON values as the scripts see them\<close>

text \<open>
  A parsed line of a session file is an arbitrary JSON value. Numbers are JavaScript
  doubles in the scripts; they are idealised here as exact rationals. Strings are lists
  of code units (restricted to the range of \<^typ>\<open>char\<close>). An object is the list of its
  own properties, each key occurring once, as \<open>JSON.parse\<close> produces it.
\<close>

datatype json =
    JNull
  | JBool bool
  | JNum rat
  | JStr string
  | JArr "json list"
  | JObj "(string \<times> json) list"

text \<open>JavaScript truthiness (\<open>Boolean(v)\<close>, and the test of \<open>if (v)\<close>, \<open>v || d\<close>, \<open>!v\<close>).\<close>

fun truthy :: "json \<Rightarrow> bool" where
  "truthy JNull = False"
| "truthy (JBool b) = b"
| "truthy (JNum n) = (n \<noteq> 0)"
| "truthy (JStr s) = (s \<noteq> [])"
| "truthy (JArr xs) = True"
| "truthy (JObj kvs) = True"

text \<open>
  The value of a property of an object that the scripts use as a counter: a number, or,
  once the counting has gone through a member inherited from \<open>Object.prototype\<close>, a
  string.
\<close>

datatype cval = CNum nat | CStr string

text \<open>
  The library functions of the JavaScript runtime that the scripts call are parameters
  of the model: \<open>JSON.parse\<close> (\<open>None\<close> when it throws), \<open>new Date(v)\<close> (the time value
  in milliseconds, \<open>None\<close> for an invalid date), the local time zone offset in
  milliseconds at a given instant, \<open>Date.prototype.toISOString\<close>, the conversion
  \<open>ToString\<close> of a non-string value used as a property key, \<open>parseInt\<close>
  (\<open>None\<close> for \<open>NaN\<close>), \<open>path.join\<close>, \<open>JSON.stringify\<close>, the message of the
  exception thrown when a path cannot be read or a text cannot be parsed, the string
  that a member of \<open>Object.prototype\<close> converts to (the source text of a built-in
  function), and the order in which \<open>Array.prototype.sort\<close> leaves entries when some
  count is not a number (the comparison function is then not consistent, and the order
  is left to the implementation). The conversions \<open>new Date(v)\<close> and \<open>ToString\<close> are
  taken to return: a value whose conversion throws (an object with an own \<open>toString\<close>
  property) makes the walk of its session throw and lies outside the statements below,
  which speak of walks that complete and of well-formed records.
\<close>

record runtime =
  JSON_parse :: "string \<Rightarrow> json option"
  newDate :: "json \<Rightarrow> int option"
  tzOffset :: "int \<Rightarrow> int"
  toISOString :: "int \<Rightarrow> string"
  ToString :: "json \<Rightarrow> string"
  parseInt :: "string \<Rightarrow> int option"
  pathJoin :: "string list \<Rightarrow> string"
  JSON_stringify :: "json \<Rightarrow> string"
  exnMessage :: "string \<Rightarrow> string"
  memberText :: "string \<Rightarrow> string"
  sortEntries :: "(string \<times> cval) list \<Rightarrow> (string \<times> cval) list"

text \<open>
  The file system: \<open>fs.existsSync\<close>, \<open>fs.readFileSync\<close> (\<open>None\<close> when it throws:
  the path is missing, is a directory, or may not be read), \<open>fs.readdirSync\<close> and
  \<open>fs.statSync(p).isDirectory()\<close> (\<open>None\<close> when they throw).
\<close>

record filesystem =
  existsSync :: "string \<Rightarrow> bool"
  readFileSync :: "string \<Rightarrow> string option"
  readdirSync :: "string \<Rightarrow> string list option"
  isDirectory :: "string \<Rightarrow> bool option"

section \<open>The line-delimited record parser\<close>

text \<open>\<open>content.split('\n')\<close>: the pieces between line feeds; the empty string gives one empty piece.\<close>

fun split_nl :: "string \<Rightarrow> string list" where
  "split_nl [] = [[]]"
| "split_nl (c # cs) =
     (if c = CHR 0x0A then [] # split_nl cs
      else (case split_nl cs of [] \<Rightarrow> [[c]] | l # ls \<Rightarrow> (c # l) # ls))"

text \<open>White space and line terminators of ECMAScript within the range of \<^typ>\<open>char\<close>.\<close>

definition isWhiteSpace :: "char \<Rightarrow> bool" where
  "isWhiteSpace c = (c \<in> set [CHR 0x09, CHR 0x0A, CHR 0x0B, CHR 0x0C, CHR 0x0D, CHR 0x20, CHR 0xA0])"

definition trim :: "string \<Rightarrow> string" where
  "trim s = rev (dropWhile isWhiteSpace (rev (dropWhile isWhiteSpace s)))"

text \<open>The test \<open>if (line.trim())\<close>: the trimmed line is a non-empty string.\<close>

definition nonBlank :: "string \<Rightarrow> bool" where
  "nonBlank l = (trim l \<noteq> [])"

text \<open>
  \<open>parseJsonl\<close> of the comprehensive generator: every non-blank line that parses is
  pushed; a line that throws is skipped; an unreadable file leaves the list empty.
\<close>

fun pushLines :: "runtime \<Rightarrow> string list \<Rightarrow> json list \<Rightarrow> json list" where
  "pushLines rt [] acc = acc"
| "pushLines rt (l # ls) acc =
     pushLines rt ls
       (if nonBlank l
        then (case JSON_parse rt l of Some v \<Rightarrow> acc @ [v] | None \<Rightarrow> acc)
        else acc)"

definition parseJsonl :: "runtime \<Rightarrow> filesystem \<Rightarrow> string \<Rightarrow> json list" where
  "parseJsonl rt fs filePath =
     (case readFileSync fs filePath of
        None \<Rightarrow> []
      | Some content \<Rightarrow> pushLines rt (split_nl content) [])"

text \<open>
  \<open>parseJSONL\<close> of the server and of the privacy-safe generator: a line that throws is
  mapped to \<open>null\<close>, and \<open>.filter(Boolean)\<close> then keeps the truthy values.
\<close>

definition parseJSONL :: "runtime \<Rightarrow> filesystem \<Rightarrow> string \<Rightarrow> json list" where
  "parseJSONL rt fs filePath =
     (case readFileSync fs filePath of
        None \<Rightarrow> []
      | Some content \<Rightarrow>
          filter truthy
            (map (\<lambda>line. case JSON_parse rt line of Some v \<Rightarrow> v | None \<Rightarrow> JNull)
               (filter nonBlank (split_nl content))))"

text \<open>The values of the non-blank lines that parse successfully, in file order.\<close>

definition parsedLines :: "runtime \<Rightarrow> string \<Rightarrow> json list" where
  "parsedLines rt content = List.map_filter (JSON_parse rt) (filter nonBlank (split_nl content))"

section \<open>Property access\<close>

datatype error = TypeError

text \<open>
  Reading a property of a value other than \<open>null\<close>: an object gives the property's
  value, or \<open>undefined\<close> (\<open>None\<close>) when it has none; a number, a boolean, a string or an
  array has none of the properties the scripts read (\<open>timestamp\<close>, \<open>type\<close>,
  \<open>gitBranch\<close>, \<open>message\<close>, \<open>content\<close>, \<open>model\<close>, \<open>name\<close>). Reading a property of
  \<open>null\<close> throws a TypeError.
\<close>

fun field :: "json \<Rightarrow> string \<Rightarrow> json option" where
  "field (JObj kvs) k = map_of kvs k"
| "field v k = None"

fun getProp :: "json \<Rightarrow> string \<Rightarrow> error + json option" where
  "getProp JNull k = Inl TypeError"
| "getProp v k = Inr (field v k)"

text \<open>Optional chaining \<open>v?.k\<close>, where \<open>v\<close> itself may be \<open>undefined\<close>.\<close>

fun optChain :: "json option \<Rightarrow> string \<Rightarrow> json option" where
  "optChain None k = None"
| "optChain (Some JNull) k = None"
| "optChain (Some v) k = field v k"

fun truthyO :: "json option \<Rightarrow> bool" where
  "truthyO None = False"
| "truthyO (Some v) = truthy v"

text \<open>A value used as a property key: a string is the key itself, anything else is converted.\<close>

fun propertyKey :: "runtime \<Rightarrow> json \<Rightarrow> string" where
  "propertyKey rt (JStr s) = s"
| "propertyKey rt v = ToString rt v"

section \<open>Objects used as counters\<close>

text \<open>
  A JavaScript object used as a dictionary is the list of its own properties in
  insertion order. Assigning to a key it has replaces the value in place; a new key goes
  to the end.
\<close>

fun assign :: "(string \<times> 'v) list \<Rightarrow> string \<Rightarrow> 'v \<Rightarrow> (string \<times> 'v) list" where
  "assign [] k v = [(k, v)]"
| "assign ((k', v') # kvs) k v =
     (if k' = k then (k', v) # kvs else (k', v') # assign kvs k v)"

text \<open>
  The counters are plain objects (\<open>{}\<close>), so that reading \<open>obj[k]\<close> for a key that is
  not an own property finds the members of \<open>Object.prototype\<close>. These are their names.
\<close>

definition objectPrototypeNames :: "string list" where
  "objectPrototypeNames =
     [''constructor'', ''__defineGetter__'', ''__defineSetter__'', ''hasOwnProperty'',
      ''__lookupGetter__'', ''__lookupSetter__'', ''isPrototypeOf'', ''propertyIsEnumerable'',
      ''toString'', ''valueOf'', ''__proto__'', ''toLocaleString'']"

text \<open>
  \<open>obj[k] = v\<close> for a number or a string \<open>v\<close>: the key \<open>__proto__\<close> is an accessor of
  \<open>Object.prototype\<close> whose setter ignores such a value; any other key becomes or stays
  an own property.
\<close>

definition assignOwn :: "(string \<times> cval) list \<Rightarrow> string \<Rightarrow> cval \<Rightarrow> (string \<times> cval) list" where
  "assignOwn obj k v = (if k = ''__proto__'' then obj else assign obj k v)"

text \<open>
  \<open>obj[k] = (obj[k] || 0) + 1\<close>. An own number grows by one; an own string, which is
  truthy unless empty, gets the character \<open>1\<close> appended. A key that is not an own
  property but names a member of \<open>Object.prototype\<close> reads that member, which is truthy,
  and the sum is the member's text followed by \<open>1\<close>. Any other key reads \<open>undefined\<close>
  and is set to 1.
\<close>

definition increment :: "runtime \<Rightarrow> (string \<times> cval) list \<Rightarrow> string \<Rightarrow> (string \<times> cval) list" where
  "increment rt obj k =
     assignOwn obj k
       (case map_of obj k of
          Some (CNum c) \<Rightarrow> CNum (c + 1)
        | Some (CStr t) \<Rightarrow> if t = [] then CNum 1 else CStr (t @ ''1'')
        | None \<Rightarrow>
            if k \<in> set objectPrototypeNames then CStr (memberText rt k @ ''1'') else CNum 1)"

text \<open>
  The order in which \<open>Object.entries\<close> and \<open>JSON.stringify\<close> visit the own properties
  of an object: first the keys that are array indices (canonical decimal numerals below
  \<open>2^32 - 1\<close>) in ascending numeric order, then the other keys in insertion order.
\<close>

definition isDigit :: "char \<Rightarrow> bool" where
  "isDigit c = (c \<in> set ''0123456789'')"

definition decimalValue :: "string \<Rightarrow> nat" where
  "decimalValue s = foldl (\<lambda>n c. 10 * n + (of_char c - 48)) 0 s"

definition isArrayIndex :: "string \<Rightarrow> bool" where
  "isArrayIndex s =
     (s \<noteq> [] \<and> list_all isDigit s \<and> (s = ''0'' \<or> hd s \<noteq> CHR ''0'')
      \<and> decimalValue s < 4294967295)"

definition ownEntries :: "(string \<times> 'v) list \<Rightarrow> (string \<times> 'v) list" where
  "ownEntries obj =
     sort_key (\<lambda>kv. decimalValue (fst kv)) (filter (\<lambda>kv. isArrayIndex (fst kv)) obj)
     @ filter (\<lambda>kv. \<not> isArrayIndex (fst kv)) obj"

section \<open>The session walker of the comprehensive generator\<close>

record modelEntry =
  inputTokens :: rat
  outputTokens :: rat
  cacheRead :: rat
  cacheWrite :: rat
  sessions :: nat

record project =
  proj_name :: string
  proj_path :: string
  proj_sessions :: nat
  proj_messages :: nat
  proj_toolCalls :: nat
  proj_branches :: "json list"
  proj_lastActivity :: "string option"

text \<open>
  The shared counters that \<open>processSession\<close> mutates: \<open>data.hourlyActivity\<close>,
  \<open>data.weekdayActivity\<close>, \<open>data.modelUsage\<close>, \<open>data.summary.lastActivity\<close>,
  \<open>allSessionDates\<close>, \<open>toolCounts\<close> and \<open>branchCounts\<close>.
\<close>

record globals =
  hourlyActivity :: "nat list"
  weekdayActivity :: "nat list"
  modelUsage :: "(string \<times> modelEntry) list"
  lastActivity :: "json option"
  allSessionDates :: "string list"
  toolCounts :: "(string \<times> cval) list"
  branchCounts :: "(string \<times> cval) list"

text \<open>The local variables of one call of \<open>processSession\<close>.\<close>

record session =
  sessionMessages :: nat
  sessionToolCalls :: nat
  sessionStart :: "int option"
  sessionEnd :: "int option"
  branch :: "json option"

text \<open>
  A step either completes or throws; both carry the state, since what was mutated before
  a throw stays mutated.
\<close>

datatype 'a outcome = Normal 'a | Thrown 'a

fun andThen :: "'a outcome \<Rightarrow> ('a \<Rightarrow> 'a outcome) \<Rightarrow> 'a outcome" where
  "andThen (Normal a) f = f a"
| "andThen (Thrown a) f = Thrown a"

text \<open>
  \<open>getHours\<close> and \<open>getDay\<close> of a valid date, in local time: the hour within the day and
  the day of the week (0 = Sunday; 1 January 1970 was a Thursday).
\<close>

definition getHours :: "runtime \<Rightarrow> int \<Rightarrow> nat" where
  "getHours rt ts = nat (((ts + tzOffset rt ts) div 3600000) mod 24)"

definition getDay :: "runtime \<Rightarrow> int \<Rightarrow> nat" where
  "getDay rt ts = nat (((ts + tzOffset rt ts) div 86400000 + 4) mod 7)"

text \<open>\<open>getDateStr\<close>: \<open>d.toISOString().split('T')[0]\<close>\<close>

definition getDateStr :: "runtime \<Rightarrow> int \<Rightarrow> string" where
  "getDateStr rt ts = takeWhile (\<lambda>c. c \<noteq> CHR ''T'') (toISOString rt ts)"

text \<open>
  \<open>arr[i]++\<close> on a bucket array. The index is an hour below 24 or a weekday below 7 and
  the arrays are created with 24 and 7 entries, so the index is in range.
\<close>

definition bumpAt :: "nat \<Rightarrow> nat list \<Rightarrow> nat list" where
  "bumpAt i xs = (if i < length xs then xs[i := xs ! i + 1] else xs)"

text \<open>
  \<open>Set.prototype.add\<close>, for a set of strings, and for a set of parsed values: there, a
  primitive value is a member when an equal value is, while an array or an object
  parsed from another line is a different object and becomes a new member.
\<close>

definition setAdd :: "string \<Rightarrow> string list \<Rightarrow> string list" where
  "setAdd x xs = (if x \<in> set xs then xs else xs @ [x])"

fun isPrimitive :: "json \<Rightarrow> bool" where
  "isPrimitive (JArr xs) = False"
| "isPrimitive (JObj kvs) = False"
| "isPrimitive v = True"

definition setAddValue :: "json \<Rightarrow> json list \<Rightarrow> json list" where
  "setAddValue x xs = (if isPrimitive x \<and> x \<in> set xs then xs else xs @ [x])"

text \<open>
  The timestamp block of the loop body (\<open>line\<close> is not \<open>null\<close> here). \<open>six\<close> is the
  time value of \<open>SIX_MONTHS_AGO\<close>; an invalid date compares false with it.
\<close>

definition trackTimestamp ::
  "runtime \<Rightarrow> int \<Rightarrow> globals \<times> session \<Rightarrow> json \<Rightarrow> globals \<times> session" where
  "trackTimestamp rt six gs line =
     (case gs of (g, s) \<Rightarrow>
      (case field line ''timestamp'' of
         None \<Rightarrow> (g, s)
       | Some tv \<Rightarrow>
           if \<not> truthy tv then (g, s)
           else (case newDate rt tv of
                   None \<Rightarrow> (g, s)
                 | Some ts \<Rightarrow>
                     if ts < six then (g, s)
                     else
                       (g\<lparr>allSessionDates := setAdd (getDateStr rt ts) (allSessionDates g),
                          hourlyActivity := bumpAt (getHours rt ts) (hourlyActivity g),
                          weekdayActivity := bumpAt (getDay rt ts) (weekdayActivity g),
                          lastActivity :=
                            (if (case lastActivity g of
                                   None \<Rightarrow> True
                                 | Some la \<Rightarrow>
                                     \<not> truthy la \<or>
                                     (case newDate rt la of None \<Rightarrow> False | Some lt \<Rightarrow> lt < ts))
                             then Some tv else lastActivity g)\<rparr>,
                        s\<lparr>sessionStart :=
                            (case sessionStart s of
                               None \<Rightarrow> Some ts
                             | Some st \<Rightarrow> if ts < st then Some ts else Some st),
                          sessionEnd :=
                            (case sessionEnd s of
                               None \<Rightarrow> Some ts
                             | Some en \<Rightarrow> if en < ts then Some ts else Some en)\<rparr>))))"

text \<open>\<open>line.type === 'user' || line.type === 'assistant'\<close>\<close>

definition isMessage :: "json \<Rightarrow> bool" where
  "isMessage line =
     (field line ''type'' = Some (JStr ''user'') \<or> field line ''type'' = Some (JStr ''assistant''))"

definition countMessage :: "globals \<times> session \<Rightarrow> json \<Rightarrow> globals \<times> session" where
  "countMessage gs line =
     (case gs of (g, s) \<Rightarrow>
        if isMessage line then (g, s\<lparr>sessionMessages := sessionMessages s + 1\<rparr>) else (g, s))"

text \<open>\<open>if (line.gitBranch && !branch)\<close>\<close>

definition trackBranch :: "runtime \<Rightarrow> globals \<times> session \<Rightarrow> json \<Rightarrow> globals \<times> session" where
  "trackBranch rt gs line =
     (case gs of (g, s) \<Rightarrow>
      (case field line ''gitBranch'' of
         None \<Rightarrow> (g, s)
       | Some b \<Rightarrow>
           if truthy b \<and> \<not> truthyO (branch s)
           then (g\<lparr>branchCounts := increment rt (branchCounts g) (propertyKey rt b)\<rparr>,
                 s\<lparr>branch := Some b\<rparr>)
           else (g, s)))"

text \<open>\<open>block.name || 'unknown'\<close>\<close>

definition toolNameOf :: "json \<Rightarrow> json" where
  "toolNameOf block =
     (case field block ''name'' of
        None \<Rightarrow> JStr ''unknown''
      | Some n \<Rightarrow> if truthy n then n else JStr ''unknown'')"

text \<open>The loop over the content blocks. Reading \<open>block.type\<close> of a \<open>null\<close> block throws.\<close>

fun countBlocks :: "runtime \<Rightarrow> globals \<times> session \<Rightarrow> json list \<Rightarrow> (globals \<times> session) outcome" where
  "countBlocks rt gs [] = Normal gs"
| "countBlocks rt gs (block # blocks) =
     (case getProp block ''type'' of
        Inl e \<Rightarrow> Thrown gs
      | Inr ty \<Rightarrow>
          if ty = Some (JStr ''tool_use'')
          then (case gs of (g, s) \<Rightarrow>
                  countBlocks rt
                    (g\<lparr>toolCounts :=
                         increment rt (toolCounts g) (propertyKey rt (toolNameOf block))\<rparr>,
                     s\<lparr>sessionToolCalls := sessionToolCalls s + 1\<rparr>)
                    blocks)
          else countBlocks rt gs blocks)"

definition countToolCalls ::
  "runtime \<Rightarrow> globals \<times> session \<Rightarrow> json \<Rightarrow> (globals \<times> session) outcome" where
  "countToolCalls rt gs line =
     (if field line ''type'' = Some (JStr ''assistant'')
      then (case optChain (field line ''message'') ''content'' of
              Some (JArr blocks) \<Rightarrow> countBlocks rt gs blocks
            | _ \<Rightarrow> Normal gs)
      else Normal gs)"

text \<open>\<open>String.prototype.includes\<close>: the pattern occurs somewhere in the string.\<close>

fun str_includes :: "string \<Rightarrow> string \<Rightarrow> bool" where
  "str_includes [] pat = (pat = [])"
| "str_includes (c # cs) pat = (take (length pat) (c # cs) = pat \<or> str_includes cs pat)"

text \<open>
  \<open>model.includes(pat)\<close> on a truthy value: a string is searched, an array is asked
  whether the pattern is one of its elements, and any other value has no \<open>includes\<close>
  method, so that the call throws.
\<close>

fun modelIncludes :: "json \<Rightarrow> string \<Rightarrow> error + bool" where
  "modelIncludes (JStr m) pat = Inr (str_includes m pat)"
| "modelIncludes (JArr xs) pat = Inr (JStr pat \<in> set xs)"
| "modelIncludes v pat = Inl TypeError"

text \<open>The display name of a model identifier, as \<open>processSession\<close> computes it.\<close>

definition shortName :: "string \<Rightarrow> string" where
  "shortName model =
     (if str_includes model ''opus'' then ''Claude Opus 4.5''
      else if str_includes model ''sonnet'' then ''Claude Sonnet 4.5''
      else model)"

definition shortNameOf :: "json \<Rightarrow> error + json" where
  "shortNameOf model =
     (case modelIncludes model ''opus'' of
        Inl e \<Rightarrow> Inl e
      | Inr True \<Rightarrow> Inr (JStr ''Claude Opus 4.5'')
      | Inr False \<Rightarrow>
          (case modelIncludes model ''sonnet'' of
             Inl e \<Rightarrow> Inl e
           | Inr True \<Rightarrow> Inr (JStr ''Claude Sonnet 4.5'')
           | Inr False \<Rightarrow> Inr model))"

definition emptyEntry :: modelEntry where
  "emptyEntry = \<lparr>inputTokens = 0, outputTokens = 0, cacheRead = 0, cacheWrite = 0, sessions = 0\<rparr>"

text \<open>
  \<open>if (!data.modelUsage[k]) data.modelUsage[k] = {...zeros}; data.modelUsage[k].sessions++\<close>.
  \<open>data.modelUsage\<close> is a plain object too: for a key that is not an own property but
  names a member of \<open>Object.prototype\<close> the test finds that member, no entry is created,
  and the increment lands on the member, outside \<open>data.modelUsage\<close>.
\<close>

definition countSession :: "(string \<times> modelEntry) list \<Rightarrow> string \<Rightarrow> (string \<times> modelEntry) list" where
  "countSession usage k =
     (case map_of usage k of
        Some e \<Rightarrow> assign usage k (e\<lparr>sessions := sessions e + 1\<rparr>)
      | None \<Rightarrow>
          if k \<in> set objectPrototypeNames then usage
          else assign usage k (emptyEntry\<lparr>sessions := sessions emptyEntry + 1\<rparr>))"

definition trackModel :: "runtime \<Rightarrow> globals \<times> session \<Rightarrow> json \<Rightarrow> (globals \<times> session) outcome" where
  "trackModel rt gs line =
     (case optChain (field line ''message'') ''model'' of
        None \<Rightarrow> Normal gs
      | Some model \<Rightarrow>
          if \<not> truthy model then Normal gs
          else (case shortNameOf model of
                  Inl e \<Rightarrow> Thrown gs
                | Inr sn \<Rightarrow>
                    (case gs of (g, s) \<Rightarrow>
                       Normal (g\<lparr>modelUsage := countSession (modelUsage g) (propertyKey rt sn)\<rparr>, s))))"

text \<open>The body of the loop over the lines of a session.\<close>

definition processLine ::
  "runtime \<Rightarrow> int \<Rightarrow> globals \<times> session \<Rightarrow> json \<Rightarrow> (globals \<times> session) outcome" where
  "processLine rt six gs line =
     (case getProp line ''timestamp'' of
        Inl e \<Rightarrow> Thrown gs
      | Inr _ \<Rightarrow>
          andThen
            (countToolCalls rt
               (trackBranch rt (countMessage (trackTimestamp rt six gs line) line) line) line)
            (\<lambda>gs'. trackModel rt gs' line))"

fun processLines ::
  "runtime \<Rightarrow> int \<Rightarrow> globals \<times> session \<Rightarrow> json list \<Rightarrow> (globals \<times> session) outcome" where
  "processLines rt six gs [] = Normal gs"
| "processLines rt six gs (line # lines) =
     andThen (processLine rt six gs line) (\<lambda>gs'. processLines rt six gs' lines)"

definition newSession :: session where
  "newSession = \<lparr>sessionMessages = 0, sessionToolCalls = 0, sessionStart = None,
                  sessionEnd = None, branch = None\<rparr>"

text \<open>The update of the project's totals after the loop.\<close>

definition updateProject :: "runtime \<Rightarrow> session \<Rightarrow> project \<Rightarrow> project" where
  "updateProject rt s p =
     p\<lparr>proj_sessions := proj_sessions p + 1,
       proj_messages := proj_messages p + sessionMessages s,
       proj_toolCalls := proj_toolCalls p + sessionToolCalls s,
       proj_branches :=
         (case branch s of
            None \<Rightarrow> proj_branches p
          | Some b \<Rightarrow> if truthy b then setAddValue b (proj_branches p) else proj_branches p),
       proj_lastActivity :=
         (case sessionEnd s of
            None \<Rightarrow> proj_lastActivity p
          | Some en \<Rightarrow>
              if (case proj_lastActivity p of
                    None \<Rightarrow> True
                  | Some la \<Rightarrow>
                      la = [] \<or>
                      (case newDate rt (JStr la) of None \<Rightarrow> False | Some lt \<Rightarrow> lt < en))
              then Some (toISOString rt en) else proj_lastActivity p)\<rparr>"

text \<open>
  \<open>processSession(lines, filename, project)\<close>; \<open>project\<close> is \<open>null\<close> for a session file
  that lies directly in the projects directory. The file name is not used. A throw in
  the loop leaves the project as it was.
\<close>

definition processSession ::
  "runtime \<Rightarrow> int \<Rightarrow> json list \<Rightarrow> string \<Rightarrow> globals \<times> project option
     \<Rightarrow> (globals \<times> project option) outcome" where
  "processSession rt six lines filename gp =
     (case gp of (g, project) \<Rightarrow>
      (case processLines rt six (g, newSession) lines of
         Thrown (g', s) \<Rightarrow> Thrown (g', project)
       | Normal (g', s) \<Rightarrow> Normal (g', map_option (updateProject rt s) project)))"

section \<open>The scan of the projects directory\<close>

definition endsWith :: "string \<Rightarrow> string \<Rightarrow> bool" where
  "endsWith s suffix = (length suffix \<le> length s \<and> drop (length s - length suffix) s = suffix)"

text \<open>\<open>projectDir.replace(/^[A-Z]-+/g, '').replace(/-/g, ' ').trim()\<close>\<close>

definition isUpper :: "char \<Rightarrow> bool" where
  "isUpper c = (c \<in> set ''ABCDEFGHIJKLMNOPQRSTUVWXYZ'')"

fun stripDrive :: "string \<Rightarrow> string" where
  "stripDrive (c # d # r) =
     (if isUpper c \<and> d = CHR ''-'' then dropWhile (\<lambda>x. x = CHR ''-'') r else c # d # r)"
| "stripDrive s = s"

definition projectName :: "string \<Rightarrow> string" where
  "projectName projectDir =
     trim (map (\<lambda>c. if c = CHR ''-'' then CHR '' '' else c) (stripDrive projectDir))"

definition newProject :: "string \<Rightarrow> project" where
  "newProject projectDir =
     \<lparr>proj_name = projectName projectDir, proj_path = projectDir, proj_sessions = 0,
      proj_messages = 0, proj_toolCalls = 0, proj_branches = [], proj_lastActivity = None\<rparr>"

text \<open>
  The loop over the files of one project directory. The project object is mutated in
  place, so a throw leaves it as far as it got.
\<close>

fun scanFiles ::
  "runtime \<Rightarrow> int \<Rightarrow> filesystem \<Rightarrow> string \<Rightarrow> globals \<times> project \<Rightarrow> string list
     \<Rightarrow> (globals \<times> project) outcome" where
  "scanFiles rt six fs projectPath gp [] = Normal gp"
| "scanFiles rt six fs projectPath gp (file # files) =
     (if endsWith file ''.jsonl''
      then (case gp of (g, p) \<Rightarrow>
             (case processSession rt six (parseJsonl rt fs (pathJoin rt [projectPath, file]))
                     file (g, Some p) of
                Normal (g', p') \<Rightarrow>
                  scanFiles rt six fs projectPath (g', case_option p id p') files
              | Thrown (g', p') \<Rightarrow> Thrown (g', case_option p id p')))
      else scanFiles rt six fs projectPath gp files)"

text \<open>
  The loop over the entries of the projects directory; \<open>projectMap\<close> is a \<open>Map\<close>, which
  keeps its keys in insertion order.
\<close>

fun scanDirs ::
  "runtime \<Rightarrow> int \<Rightarrow> filesystem \<Rightarrow> string \<Rightarrow> globals \<times> (string \<times> project) list
     \<Rightarrow> string list \<Rightarrow> (globals \<times> (string \<times> project) list) outcome" where
  "scanDirs rt six fs projectsDir st [] = Normal st"
| "scanDirs rt six fs projectsDir st (projectDir # dirs) =
     (case st of (g, projectMap) \<Rightarrow>
      (let projectPath = pathJoin rt [projectsDir, projectDir] in
       case isDirectory fs projectPath of
         None \<Rightarrow> Thrown st
       | Some False \<Rightarrow>
           if endsWith projectDir ''.jsonl''
           then (case processSession rt six (parseJsonl rt fs projectPath) projectDir (g, None) of
                   Normal (g', _) \<Rightarrow> scanDirs rt six fs projectsDir (g', projectMap) dirs
                 | Thrown (g', _) \<Rightarrow> Thrown (g', projectMap))
           else scanDirs rt six fs projectsDir st dirs
       | Some True \<Rightarrow>
           (let p = (case map_of projectMap projectDir of
                       None \<Rightarrow> newProject projectDir
                     | Some p \<Rightarrow> p)
            in case readdirSync fs projectPath of
                 None \<Rightarrow> Thrown (g, assign projectMap projectDir p)
               | Some files \<Rightarrow>
                   (case scanFiles rt six fs projectPath (g, p) files of
                      Normal (g', p') \<Rightarrow>
                        scanDirs rt six fs projectsDir (g', assign projectMap projectDir p') dirs
                    | Thrown (g', p') \<Rightarrow> Thrown (g', assign projectMap projectDir p')))))"

definition scanProjects ::
  "runtime \<Rightarrow> int \<Rightarrow> filesystem \<Rightarrow> string \<Rightarrow> globals
     \<Rightarrow> (globals \<times> (string \<times> project) list) outcome" where
  "scanProjects rt six fs projectsDir g =
     (case readdirSync fs projectsDir of
        None \<Rightarrow> Thrown (g, [])
      | Some dirs \<Rightarrow> scanDirs rt six fs projectsDir (g, []) dirs)"

text \<open>
  The session files that a scan visits, in the order of the visit (as far as the
  directory listings can be read).
\<close>

fun sessionFilesOf :: "runtime \<Rightarrow> filesystem \<Rightarrow> string \<Rightarrow> string list \<Rightarrow> string list" where
  "sessionFilesOf rt fs projectsDir [] = []"
| "sessionFilesOf rt fs projectsDir (projectDir # dirs) =
     (let projectPath = pathJoin rt [projectsDir, projectDir] in
      (case isDirectory fs projectPath of
         None \<Rightarrow> []
       | Some False \<Rightarrow> if endsWith projectDir ''.jsonl'' then [projectPath] else []
       | Some True \<Rightarrow>
           (case readdirSync fs projectPath of
              None \<Rightarrow> []
            | Some files \<Rightarrow>
                map (\<lambda>file. pathJoin rt [projectPath, file])
                  (filter (\<lambda>file. endsWith file ''.jsonl'') files)))
      @ sessionFilesOf rt fs projectsDir dirs)"

definition scannedLines :: "runtime \<Rightarrow> filesystem \<Rightarrow> string \<Rightarrow> json list" where
  "scannedLines rt fs projectsDir =
     (case readdirSync fs projectsDir of
        None \<Rightarrow> []
      | Some dirs \<Rightarrow> concat (map (parseJsonl rt fs) (sessionFilesOf rt fs projectsDir dirs)))"

section \<open>The initial data and the hourly counts of the cache\<close>

definition initialGlobals :: globals where
  "initialGlobals =
     \<lparr>hourlyActivity = replicate 24 0, weekdayActivity = replicate 7 0, modelUsage = [],
      lastActivity = None, allSessionDates = [], toolCounts = [], branchCounts = []\<rparr>"

text \<open>
  \<open>data.hourlyActivity[parseInt(hour)] = count\<close>: \<open>NaN\<close> or a negative number names a
  property that is not an element; an index past the end lengthens the array, and the
  holes in between (which lie beyond the 24 buckets) are written as 0 here.
\<close>

definition setHour :: "int option \<Rightarrow> nat \<Rightarrow> nat list \<Rightarrow> nat list" where
  "setHour idx count arr =
     (case idx of
        None \<Rightarrow> arr
      | Some i \<Rightarrow>
          if i < 0 then arr
          else if nat i < length arr then arr[nat i := count]
          else arr @ replicate (nat i - length arr) 0 @ [count])"

text \<open>The cache's \<open>hourCounts\<close>, when it has them, overwrite the hourly buckets.\<close>

definition seedHourly :: "runtime \<Rightarrow> (string \<times> nat) list option \<Rightarrow> globals \<Rightarrow> globals" where
  "seedHourly rt hourCounts g =
     (case hourCounts of
        None \<Rightarrow> g
      | Some hc \<Rightarrow>
          g\<lparr>hourlyActivity :=
              foldl (\<lambda>arr kv. setHour (parseInt rt (fst kv)) (snd kv) arr)
                (hourlyActivity g) (ownEntries hc)\<rparr>)"

section \<open>Ranking and truncation\<close>

text \<open>
  \<open>.sort((a, b) => b[1] - a[1])\<close>: a stable sort by descending count when every count
  is a number; otherwise the order is the implementation's.
  \<open>.reduce((obj, [name, count]) => { obj[name] = count; return obj; }, {})\<close> builds the
  output object from the entries.
\<close>

fun isNum :: "cval \<Rightarrow> bool" where
  "isNum (CNum c) = True"
| "isNum (CStr t) = False"

fun numOf :: "cval \<Rightarrow> nat" where
  "numOf (CNum c) = c"
| "numOf (CStr t) = 0"

definition sortByCountDesc :: "runtime \<Rightarrow> (string \<times> cval) list \<Rightarrow> (string \<times> cval) list" where
  "sortByCountDesc rt entries =
     (if list_all (\<lambda>kv. isNum (snd kv)) entries
      then sort_key (\<lambda>kv. - int (numOf (snd kv))) entries
      else sortEntries rt entries)"

definition fromEntries :: "(string \<times> cval) list \<Rightarrow> (string \<times> cval) list" where
  "fromEntries entries = foldl (\<lambda>obj kv. assignOwn obj (fst kv) (snd kv)) [] entries"

definition topEntries :: "runtime \<Rightarrow> nat \<Rightarrow> (string \<times> cval) list \<Rightarrow> (string \<times> cval) list" where
  "topEntries rt n counts = fromEntries (take n (sortByCountDesc rt (ownEntries counts)))"

definition toolUsage :: "runtime \<Rightarrow> globals \<Rightarrow> (string \<times> cval) list" where
  "toolUsage rt g = topEntries rt 20 (toolCounts g)"

definition gitBranches :: "runtime \<Rightarrow> globals \<Rightarrow> (string \<times> cval) list" where
  "gitBranches rt g = topEntries rt 15 (branchCounts g)"

record projectOut =
  out_name :: string
  out_sessions :: nat
  out_messages :: nat
  out_toolCalls :: nat
  out_branches :: "json list"
  out_lastActivity :: "string option"

definition projectOutOf :: "project \<Rightarrow> projectOut" where
  "projectOutOf p =
     \<lparr>out_name = proj_name p, out_sessions = proj_sessions p, out_messages = proj_messages p,
      out_toolCalls = proj_toolCalls p, out_branches = take 5 (proj_branches p),
      out_lastActivity = proj_lastActivity p\<rparr>"

definition projects :: "(string \<times> project) list \<Rightarrow> projectOut list" where
  "projects projectMap =
     take 10
       (sort_key (\<lambda>p. - int (out_sessions p))
          (filter (\<lambda>p. out_sessions p > 0) (map (\<lambda>kv. projectOutOf (snd kv)) projectMap)))"

section \<open>The cost estimate\<close>

record pricing =
  rate_input :: rat
  rate_output :: rat
  rate_cacheRead :: rat
  rate_cacheWrite :: rat

definition PRICING :: "(string \<times> pricing) list" where
  "PRICING =
     [(''claude-sonnet-4-5-20250929'',
       \<lparr>rate_input = 3, rate_output = 15, rate_cacheRead = 3 / 10, rate_cacheWrite = 375 / 100\<rparr>),
      (''claude-opus-4-5-20251101'',
       \<lparr>rate_input = 15, rate_output = 75, rate_cacheRead = 15 / 10, rate_cacheWrite = 1875 / 100\<rparr>),
      (''default'',
       \<lparr>rate_input = 3, rate_output = 15, rate_cacheRead = 3 / 10, rate_cacheWrite = 375 / 100\<rparr>)]"

text \<open>
  \<open>model.includes('Opus') ? PRICING['claude-opus-4-5-20251101'] : PRICING['default']\<close>;
  both keys are in the table.
\<close>

definition pricingFor :: "string \<Rightarrow> pricing" where
  "pricingFor model =
     the (map_of PRICING
            (if str_includes model ''Opus'' then ''claude-opus-4-5-20251101'' else ''default''))"

definition modelCost :: "string \<Rightarrow> modelEntry \<Rightarrow> rat" where
  "modelCost model usage =
     (let pricing = pricingFor model in
        (inputTokens usage / 1000000) * rate_input pricing +
        (outputTokens usage / 1000000) * rate_output pricing +
        (cacheRead usage / 1000000) * rate_cacheRead pricing +
        (cacheWrite usage / 1000000) * rate_cacheWrite pricing)"

definition estimatedCostUSD :: "globals \<Rightarrow> rat" where
  "estimatedCostUSD g =
     foldl (\<lambda>total kv. total + modelCost (fst kv) (snd kv)) 0 (ownEntries (modelUsage g))"

text \<open>
  The privacy-safe generator and the server's summary work on the cache's \<open>modelUsage\<close>,
  keyed by the raw model identifier. \<open>modelCostSum\<close> is the number that they format with
  \<open>toFixed(2)\<close> as the model's estimated (total) cost.
\<close>

record cacheUsage =
  usage_inputTokens :: rat
  usage_outputTokens :: rat
  cacheReadInputTokens :: rat
  cacheCreationInputTokens :: rat

definition inputCost :: "string \<Rightarrow> cacheUsage \<Rightarrow> rat" where
  "inputCost model usage =
     (usage_inputTokens usage / 1000000) * (if str_includes model ''opus'' then 15 else 3)"

definition outputCost :: "string \<Rightarrow> cacheUsage \<Rightarrow> rat" where
  "outputCost model usage =
     (usage_outputTokens usage / 1000000) * (if str_includes model ''opus'' then 75 else 15)"

definition cacheCost :: "string \<Rightarrow> cacheUsage \<Rightarrow> rat" where
  "cacheCost model usage =
     (cacheReadInputTokens usage / 1000000) * (if str_includes model ''opus'' then 15 / 10 else 3 / 10)"

definition modelCostSum :: "string \<Rightarrow> cacheUsage \<Rightarrow> rat" where
  "modelCostSum model usage = inputCost model usage + outputCost model usage + cacheCost model usage"

text \<open>The display name in the privacy-safe generator.\<close>

definition shortNameSafe :: "string \<Rightarrow> string" where
  "shortNameSafe model = (if str_includes model ''opus'' then ''Claude Opus'' else ''Claude Sonnet'')"

section \<open>The per-entry counting of the server and of the privacy-safe generator\<close>

text \<open>The number of matches of \<open>/tool_use|function_call/g\<close> in a string.\<close>

function countMatches :: "string \<Rightarrow> nat" where
  "countMatches [] = 0"
| "countMatches (c # cs) =
     (if take 8 (c # cs) = ''tool_use'' then 1 + countMatches (drop 7 cs)
      else if take 13 (c # cs) = ''function_call'' then 1 + countMatches (drop 12 cs)
      else countMatches cs)"
  by pat_completeness auto
termination
  by (relation "measure length") auto

record tally =
  totalMessages :: nat
  totalToolCalls :: nat
  branches :: "json list"

text \<open>
  The body of \<open>entries.forEach\<close> in the server's project listing. The entries come from
  \<open>parseJSONL\<close> and are therefore not \<open>null\<close>. \<open>matchesIn\<close> is the number of matches in
  the entry's message content, a string or else its \<open>JSON.stringify\<close> text, and 0 when
  there is no truthy content.
\<close>

definition matchesIn :: "runtime \<Rightarrow> json \<Rightarrow> nat" where
  "matchesIn rt entry =
     (case optChain (field entry ''message'') ''content'' of
        None \<Rightarrow> 0
      | Some content \<Rightarrow>
          if truthy content
          then countMatches (case content of JStr c \<Rightarrow> c | _ \<Rightarrow> JSON_stringify rt content)
          else 0)"

definition tallyEntry :: "runtime \<Rightarrow> tally \<Rightarrow> json \<Rightarrow> tally" where
  "tallyEntry rt t entry =
     t\<lparr>totalMessages := (if isMessage entry then totalMessages t + 1 else totalMessages t),
       branches :=
         (case field entry ''gitBranch'' of
            None \<Rightarrow> branches t
          | Some b \<Rightarrow> if truthy b then setAddValue b (branches t) else branches t),
       totalToolCalls := totalToolCalls t + matchesIn rt entry\<rparr>"

definition tallyEntries :: "runtime \<Rightarrow> tally \<Rightarrow> json list \<Rightarrow> tally" where
  "tallyEntries rt t entries = foldl (tallyEntry rt) t entries"


section \<open>The server's handlers for the statistics and for one session\<close>

datatype response = Response (status: nat) (body: json)

definition errorBody :: "string \<Rightarrow> string \<Rightarrow> json" where
  "errorBody err details = JObj [(''error'', JStr err), (''details'', JStr details)]"

text \<open>\<open>app.get('/api/stats')\<close>: the cache is read and parsed; either step may throw.\<close>

definition statsHandler :: "runtime \<Rightarrow> filesystem \<Rightarrow> string \<Rightarrow> response" where
  "statsHandler rt fs STATS_CACHE =
     (case readFileSync fs STATS_CACHE of
        None \<Rightarrow> Response 500 (errorBody ''Failed to read stats'' (exnMessage rt STATS_CACHE))
      | Some text \<Rightarrow>
          (case JSON_parse rt text of
             None \<Rightarrow> Response 500 (errorBody ''Failed to read stats'' (exnMessage rt text))
           | Some stats \<Rightarrow> Response 200 stats))"

text \<open>
  \<open>app.get('/api/session/:project/:sessionId')\<close>. The result carries, besides the
  response, the file system calls that the handler made, in order. Nothing in the
  \<open>try\<close> block can throw (\<open>existsSync\<close> and \<open>parseJSONL\<close> never do), so the \<open>catch\<close>
  branch with status 500 is never taken.
\<close>

datatype access = Exists string | Read string

definition sessionHandler ::
  "runtime \<Rightarrow> filesystem \<Rightarrow> string \<Rightarrow> string \<Rightarrow> string \<Rightarrow> response \<times> access list" where
  "sessionHandler rt fs PROJECTS_DIR project sessionId =
     (let sessionPath = pathJoin rt [PROJECTS_DIR, project, sessionId @ ''.jsonl''] in
      if \<not> existsSync fs sessionPath
      then (let agentPath =
                  pathJoin rt [PROJECTS_DIR, project, ''agent-'' @ take 8 sessionId @ ''.jsonl''] in
            if existsSync fs agentPath
            then (Response 200 (JArr (parseJSONL rt fs agentPath)),
                  [Exists sessionPath, Exists agentPath, Read agentPath])
            else (Response 404 (JObj [(''error'', JStr ''Session not found'')]),
                  [Exists sessionPath, Exists agentPath]))
      else (Response 200 (JArr (parseJSONL rt fs sessionPath)),
            [Exists sessionPath, Read sessionPath]))"

section \<open>Notions used in the statements\<close>

text \<open>The state that an outcome carries, thrown or not.\<close>

fun stateOf :: "'a outcome \<Rightarrow> 'a" where
  "stateOf (Normal a) = a"
| "stateOf (Thrown a) = a"

text \<open>
  A well-formed session record: an object whose message content, when it is a sequence,
  is a sequence of objects, and whose model identifier, when present, is a string.
\<close>

fun isObject :: "json \<Rightarrow> bool" where
  "isObject (JObj kvs) = True"
| "isObject v = False"

definition blocksOK :: "json \<Rightarrow> bool" where
  "blocksOK line =
     (case optChain (field line ''message'') ''content'' of
        Some (JArr blocks) \<Rightarrow> list_all isObject blocks
      | _ \<Rightarrow> True)"

definition modelOK :: "json \<Rightarrow> bool" where
  "modelOK line =
     (case optChain (field line ''message'') ''model'' of
        None \<Rightarrow> True
      | Some JNull \<Rightarrow> True
      | Some (JStr m) \<Rightarrow> True
      | Some _ \<Rightarrow> False)"

definition wellFormedRecord :: "json \<Rightarrow> bool" where
  "wellFormedRecord line = (isObject line \<and> blocksOK line \<and> modelOK line)"

text \<open>
  A record carries a timestamp within the retention window: its \<open>timestamp\<close> is truthy
  and denotes a valid date that is not before \<open>SIX_MONTHS_AGO\<close>.
\<close>

definition inWindow :: "runtime \<Rightarrow> int \<Rightarrow> json \<Rightarrow> bool" where
  "inWindow rt six line =
     (case field line ''timestamp'' of
        None \<Rightarrow> False
      | Some tv \<Rightarrow>
          truthy tv \<and> (case newDate rt tv of None \<Rightarrow> False | Some ts \<Rightarrow> six \<le> ts))"

definition hourlyTotal :: "globals \<Rightarrow> nat" where
  "hourlyTotal g = sum_list (take 24 (hourlyActivity g))"

definition weekdayTotal :: "globals \<Rightarrow> nat" where
  "weekdayTotal g = sum_list (take 7 (weekdayActivity g))"

definition bucketsPresent :: "globals \<Rightarrow> bool" where
  "bucketsPresent g = (24 \<le> length (hourlyActivity g) \<and> 7 \<le> length (weekdayActivity g))"

text \<open>Both sets of buckets are there and their sums have grown by \<open>n\<close>.\<close>

definition grownBy :: "nat \<Rightarrow> globals \<Rightarrow> globals \<Rightarrow> bool" where
  "grownBy n g g' =
     (bucketsPresent g' \<and> hourlyTotal g' = hourlyTotal g + n \<and> weekdayTotal g' = weekdayTotal g + n)"

text \<open>The count that a counter object holds for a name, and the sum of the counts over its names.\<close>

definition countOf :: "(string \<times> cval) list \<Rightarrow> string \<Rightarrow> nat" where
  "countOf obj k = (case map_of obj k of None \<Rightarrow> 0 | Some v \<Rightarrow> numOf v)"

definition sumOverNames :: "(string \<times> cval) list \<Rightarrow> nat" where
  "sumOverNames obj = sum_list (map (countOf obj) (remdups (map fst obj)))"

text \<open>
  A counter object as the scan keeps it: a property whose value is not a number has the
  name of a member of \<open>Object.prototype\<close>. The empty object is such, and \<open>increment\<close>
  keeps it so.
\<close>

definition countersKept :: "(string \<times> cval) list \<Rightarrow> bool" where
  "countersKept obj = list_all (\<lambda>kv. isNum (snd kv) \<or> fst kv \<in> set objectPrototypeNames) obj"

text \<open>
  The keys under which the walker counts the tool calls of a record and of a file: the
  names of the \<open>tool_use\<close> blocks of the assistant records whose content is a sequence.
\<close>

definition isToolUse :: "json \<Rightarrow> bool" where
  "isToolUse block = (field block ''type'' = Some (JStr ''tool_use''))"

definition lineToolKeys :: "runtime \<Rightarrow> json \<Rightarrow> string list" where
  "lineToolKeys rt line =
     (if field line ''type'' = Some (JStr ''assistant'')
      then (case optChain (field line ''message'') ''content'' of
              Some (JArr blocks) \<Rightarrow>
                map (\<lambda>block. propertyKey rt (toolNameOf block)) (filter isToolUse blocks)
            | _ \<Rightarrow> [])
      else [])"

definition fileToolKeys :: "runtime \<Rightarrow> json list \<Rightarrow> string list" where
  "fileToolKeys rt lines = concat (map (lineToolKeys rt) lines)"


text \<open>The \<open>gitBranch\<close> of the first record of a session that carries a (truthy) one.\<close>

definition carriesBranch :: "json \<Rightarrow> bool" where
  "carriesBranch line = truthyO (field line ''gitBranch'')"

definition firstBranch :: "json list \<Rightarrow> json option" where
  "firstBranch lines =
     (case find carriesBranch lines of None \<Rightarrow> None | Some line \<Rightarrow> field line ''gitBranch'')"

section \<open>A runtime and a file system for the examples\<close>

text \<open>
  The examples below run the model on concrete files. Their runtime agrees with the
  JavaScript library on the inputs the examples use: \<open>JSON.parse\<close> on a few lines
  (and it throws on \<open>{bad json\<close>), \<open>new Date\<close> on integral numeric timestamps,
  \<open>toISOString\<close> on the time values 0, 5 and 7200000, UTC as the local time zone,
  \<open>parseInt\<close> on \<open>3\<close>, \<open>path.join\<close> on plain segments, and the text of the members
  of \<open>Object.prototype\<close>. No example converts a value to a string, reads an exception's
  message, or sorts entries that hold a string.
\<close>

definition exampleParse :: "string \<Rightarrow> json option" where
  \<open>exampleParse l =
     (if l = ''0'' then Some (JNum 0)
      else if l = ''null'' then Some JNull
      else if l = ''{}'' then Some (JObj [])
      else if l = ''{"timestamp":7200000}'' then Some (JObj [(''timestamp'', JNum 7200000)])
      else if l = ''{"timestamp":-1}'' then Some (JObj [(''timestamp'', JNum (- 1))])
      else None)\<close>

definition exampleRuntime :: runtime where
  "exampleRuntime =
     \<lparr>JSON_parse = exampleParse,
      newDate = (\<lambda>v. case v of JNum n \<Rightarrow> Some \<lfloor>n\<rfloor> | _ \<Rightarrow> None),
      tzOffset = (\<lambda>t. 0),
      toISOString = (\<lambda>t. if t = 7200000 then ''1970-01-01T02:00:00.000Z''
                          else if t = 5 then ''1970-01-01T00:00:00.005Z''
                          else ''1970-01-01T00:00:00.000Z''),
      ToString = (\<lambda>v. ''[object Object]''),
      parseInt = (\<lambda>s. if s = ''3'' then Some 3 else None),
      pathJoin = (\<lambda>ps. foldr (\<lambda>a b. if b = [] then a else a @ ''/'' @ b) ps []),
      JSON_stringify = (\<lambda>v. ''{}''),
      exnMessage = (\<lambda>p. ''ENOENT''),
      memberText = (\<lambda>k. if k = ''__proto__'' then ''[object Object]''
                         else if k = ''constructor'' then ''function Object() { [native code] }''
                         else ''function '' @ k @ ''() { [native code] }''),
      sortEntries = (\<lambda>entries. entries)\<rparr>"

text \<open>A file system holding the given directories and (readable) files.\<close>

definition exampleFs :: "(string \<times> string list) list \<Rightarrow> (string \<times> string) list \<Rightarrow> filesystem" where
  "exampleFs dirs files =
     \<lparr>existsSync = (\<lambda>p. map_of dirs p \<noteq> None \<or> map_of files p \<noteq> None),
      readFileSync = map_of files,
      readdirSync = map_of dirs,
      isDirectory = (\<lambda>p. if map_of dirs p \<noteq> None then Some True
                          else if map_of files p \<noteq> None then Some False else None)\<rparr>"

text \<open>
  A session of four records: a user prompt, an assistant turn that calls the tool
  \<open>Read\<close> on the branch \<open>main\<close> with a model of the Opus family, a summary, and a bare
  timestamp.
\<close>

definition exampleLines :: "json list" where
  "exampleLines =
     [JObj [(''type'', JStr ''user''), (''timestamp'', JNum 7200000)],
      JObj [(''type'', JStr ''assistant''), (''gitBranch'', JStr ''main''),
            (''message'',
             JObj [(''model'', JStr ''claude-opus-4-5-20251101''),
                   (''content'',
                    JArr [JObj [(''type'', JStr ''text'')],
                          JObj [(''type'', JStr ''tool_use''), (''name'', JStr ''Read'')]])])],
      JObj [(''type'', JStr ''summary''), (''gitBranch'', JStr ''dev'')],
      JObj [(''timestamp'', JNum 5)]]"

definition exampleAfter :: globals where
  "exampleAfter =
     initialGlobals
       \<lparr>hourlyActivity := (replicate 24 0)[2 := Suc 0, 0 := Suc 0],
        weekdayActivity := (replicate 7 0)[4 := Suc (Suc 0)],
        modelUsage := [(''Claude Opus 4.5'', emptyEntry\<lparr>sessions := 1\<rparr>)],
        lastActivity := Some (JNum 7200000),
        allSessionDates := [''1970-01-01''],
        toolCounts := [(''Read'', CNum 1)],
        branchCounts := [(''main'', CNum 1)]\<rparr>"

definition exampleSession :: session where
  "exampleSession =
     \<lparr>sessionMessages = 2, sessionToolCalls = 1, sessionStart = Some 5,
      sessionEnd = Some 7200000, branch = Some (JStr ''main'')\<rparr>"


text \<open>
  A projects directory with one project that holds one session file of three records:
  one within the retention window, one before it, and one without a timestamp. The
  cache gives 5 for the hour 3.
\<close>

definition exampleTree :: filesystem where
  \<open>exampleTree =
     exampleFs [(''projects'', [''p'']), (''projects/p'', [''a.jsonl'', ''notes.txt''])]
       [(''projects/p/a.jsonl'',
         ''{"timestamp":7200000}'' @ [CHR 0x0A] @ ''{"timestamp":-1}'' @ [CHR 0x0A] @ ''{}'')]\<close>

definition exampleSeeded :: globals where
  "exampleSeeded = seedHourly exampleRuntime (Some [(''3'', 5)]) initialGlobals"

text \<open>
  The counters after three sessions, two on the branch \<open>main\<close> and then one on the
  branch \<open>2024\<close>.
\<close>

definition exampleBranches :: globals where
  "exampleBranches = initialGlobals\<lparr>branchCounts := [(''main'', CNum 2), (''2024'', CNum 1)]\<rparr>"

text \<open>
  A file system in which every path exists and none can be read (each is a directory,
  say), and one that holds an agent file only.
\<close>

definition unreadableFs :: filesystem where
  "unreadableFs =
     \<lparr>existsSync = (\<lambda>p. True), readFileSync = (\<lambda>p. None), readdirSync = (\<lambda>p. None),
      isDirectory = (\<lambda>p. Some True)\<rparr>"

definition agentFs :: filesystem where
  "agentFs = exampleFs [] [(''projects/p/agent-01234567.jsonl'', ''{}'')]"

text \<open>
  A user record whose message is the text \<open>tool_use\<close>; a session whose first record has
  an empty \<open>gitBranch\<close> and whose second is on the branch \<open>main\<close>; and an assistant
  record that calls a tool named \<open>constructor\<close>.
\<close>

definition exampleMention :: json where
  "exampleMention =
     JObj [(''type'', JStr ''user''), (''message'', JObj [(''content'', JStr ''tool_use'')])]"

definition exampleEmptyBranch :: "json list" where
  "exampleEmptyBranch =
     [JObj [(''gitBranch'', JStr [])], JObj [(''gitBranch'', JStr ''main'')]]"

definition exampleConstructor :: json where
  "exampleConstructor =
     JObj [(''type'', JStr ''assistant''),
           (''message'',
            JObj [(''content'',
                   JArr [JObj [(''type'', JStr ''tool_use''), (''name'', JStr ''constructor'')]])])]"

section \<open>Properties of the parser\<close>

lemma pushLines_acc:
  "pushLines rt ls acc = acc @ List.map_filter (JSON_parse rt) (filter nonBlank ls)"
  by (induction ls arbitrary: acc) (auto split: option.splits)

lemma filter_truthy_parsed:
  "filter truthy (map (\<lambda>line. case JSON_parse rt line of Some v \<Rightarrow> v | None \<Rightarrow> JNull) ls)
     = filter truthy (List.map_filter (JSON_parse rt) ls)"
  by (induction ls) (auto split: option.splits)

lemma dropWhile_all: "(\<forall>x \<in> set (dropWhile P l). P x) \<longleftrightarrow> (\<forall>x \<in> set l. P x)"
  by (induction l) auto

lemma nonBlank_iff: "nonBlank l \<longleftrightarrow> (\<exists>c \<in> set l. \<not> isWhiteSpace c)"
  using dropWhile_all [of isWhiteSpace l]
  by (simp add: nonBlank_def trim_def dropWhile_eq_Nil_conv)

text \<open>
  C4, as the claim states it, fails for \<open>parseJSONL\<close>: the line \<open>0\<close> is not blank and
  parses to the number 0, and the server's parser returns the empty list for the file
  that consists of this line.
\<close>

theorem parseJSONL_drops_falsy_value:
  "parsedLines exampleRuntime ''0'' = [JNum 0]
   \<and> parseJSONL exampleRuntime (exampleFs [] [(''s.jsonl'', ''0'')]) ''s.jsonl'' = []"
  by (simp add: parsedLines_def parseJSONL_def exampleRuntime_def exampleParse_def exampleFs_def
        nonBlank_def trim_def isWhiteSpace_def)

text \<open>
  C4, amended: \<open>parseJsonl\<close> of the comprehensive generator returns exactly the values
  of the non-blank lines that parse, in file order; \<open>parseJSONL\<close> of the server and of
  the privacy-safe generator returns those of them that are truthy, in file order; both
  return the empty list for a file that cannot be read. A line that fails to parse
  contributes nothing and leaves the values of the other lines as they are.
\<close>

theorem parsers_return_parsed_lines:
  "parseJsonl rt fs filePath =
     (case readFileSync fs filePath of None \<Rightarrow> [] | Some content \<Rightarrow> parsedLines rt content)
   \<and> parseJSONL rt fs filePath =
     (case readFileSync fs filePath of
        None \<Rightarrow> []
      | Some content \<Rightarrow> filter truthy (parsedLines rt content))"
  by (simp add: parseJsonl_def parseJSONL_def parsedLines_def pushLines_acc
        filter_truthy_parsed split: option.splits)

text \<open>
  On a file of four lines, an object, a malformed line, a blank line and the number 0,
  the generator's parser returns the object and the number, and the server's parser
  returns the object.
\<close>

theorem parsers_witness:
  "parseJsonl exampleRuntime
     (exampleFs [] [(''s.jsonl'', ''{}'' @ [CHR 0x0A] @ ''{bad json'' @ [CHR 0x0A] @ '' ''
                                  @ [CHR 0x0A] @ ''0'')]) ''s.jsonl''
     = [JObj [], JNum 0]
   \<and> parseJSONL exampleRuntime
     (exampleFs [] [(''s.jsonl'', ''{}'' @ [CHR 0x0A] @ ''{bad json'' @ [CHR 0x0A] @ '' ''
                                  @ [CHR 0x0A] @ ''0'')]) ''s.jsonl''
     = [JObj []]
   \<and> parseJSONL exampleRuntime (exampleFs [] []) ''s.jsonl'' = []"
  using parsers_return_parsed_lines
          [of exampleRuntime
              "exampleFs [] [(''s.jsonl'', ''{}'' @ [CHR 0x0A] @ ''{bad json'' @ [CHR 0x0A] @ '' ''
                                           @ [CHR 0x0A] @ ''0'')]"
              "''s.jsonl''"]
        parsers_return_parsed_lines [of exampleRuntime "exampleFs [] []" "''s.jsonl''"]
  by (simp add: parsedLines_def exampleFs_def exampleRuntime_def exampleParse_def nonBlank_def
        trim_def isWhiteSpace_def List.map_filter_def)

section \<open>Properties of the session walker\<close>

lemma trackTimestamp_session [simp]:
  "sessionMessages (snd (trackTimestamp rt six gs line)) = sessionMessages (snd gs)"
  "sessionToolCalls (snd (trackTimestamp rt six gs line)) = sessionToolCalls (snd gs)"
  "branch (snd (trackTimestamp rt six gs line)) = branch (snd gs)"
  "toolCounts (fst (trackTimestamp rt six gs line)) = toolCounts (fst gs)"
  "branchCounts (fst (trackTimestamp rt six gs line)) = branchCounts (fst gs)"
  "modelUsage (fst (trackTimestamp rt six gs line)) = modelUsage (fst gs)"
  by (cases gs; simp add: trackTimestamp_def split: option.splits)+

lemma countMessage_simps [simp]:
  "sessionMessages (snd (countMessage gs line)) = sessionMessages (snd gs) + (if isMessage line then 1 else 0)"
  "sessionToolCalls (snd (countMessage gs line)) = sessionToolCalls (snd gs)"
  "branch (snd (countMessage gs line)) = branch (snd gs)"
  "fst (countMessage gs line) = fst gs"
  by (cases gs; simp add: countMessage_def)+

lemma trackBranch_simps [simp]:
  "sessionMessages (snd (trackBranch rt gs line)) = sessionMessages (snd gs)"
  "sessionToolCalls (snd (trackBranch rt gs line)) = sessionToolCalls (snd gs)"
  "toolCounts (fst (trackBranch rt gs line)) = toolCounts (fst gs)"
  "modelUsage (fst (trackBranch rt gs line)) = modelUsage (fst gs)"
  "hourlyActivity (fst (trackBranch rt gs line)) = hourlyActivity (fst gs)"
  "weekdayActivity (fst (trackBranch rt gs line)) = weekdayActivity (fst gs)"
  by (cases gs; simp add: trackBranch_def split: option.splits)+

lemma countBlocks_simps [simp]:
  "sessionMessages (snd (stateOf (countBlocks rt gs blocks))) = sessionMessages (snd gs)"
  "branch (snd (stateOf (countBlocks rt gs blocks))) = branch (snd gs)"
  "branchCounts (fst (stateOf (countBlocks rt gs blocks))) = branchCounts (fst gs)"
  "modelUsage (fst (stateOf (countBlocks rt gs blocks))) = modelUsage (fst gs)"
  "hourlyActivity (fst (stateOf (countBlocks rt gs blocks))) = hourlyActivity (fst gs)"
  "weekdayActivity (fst (stateOf (countBlocks rt gs blocks))) = weekdayActivity (fst gs)"
  by (induction blocks arbitrary: gs; simp add: Let_def split: sum.splits prod.splits)+

lemma countToolCalls_simps [simp]:
  "sessionMessages (snd (stateOf (countToolCalls rt gs line))) = sessionMessages (snd gs)"
  "branch (snd (stateOf (countToolCalls rt gs line))) = branch (snd gs)"
  "branchCounts (fst (stateOf (countToolCalls rt gs line))) = branchCounts (fst gs)"
  "modelUsage (fst (stateOf (countToolCalls rt gs line))) = modelUsage (fst gs)"
  "hourlyActivity (fst (stateOf (countToolCalls rt gs line))) = hourlyActivity (fst gs)"
  "weekdayActivity (fst (stateOf (countToolCalls rt gs line))) = weekdayActivity (fst gs)"
  by (simp_all add: countToolCalls_def split: option.splits json.splits)

lemma trackModel_simps [simp]:
  "snd (stateOf (trackModel rt gs line)) = snd gs"
  "toolCounts (fst (stateOf (trackModel rt gs line))) = toolCounts (fst gs)"
  "branchCounts (fst (stateOf (trackModel rt gs line))) = branchCounts (fst gs)"
  "hourlyActivity (fst (stateOf (trackModel rt gs line))) = hourlyActivity (fst gs)"
  "weekdayActivity (fst (stateOf (trackModel rt gs line))) = weekdayActivity (fst gs)"
  by (cases gs; simp add: trackModel_def split: option.splits sum.splits)+

lemma stateOf_andThen_pres:
  assumes "\<And>a. Q (stateOf (f a)) = Q a"
  shows "Q (stateOf (andThen x f)) = Q (stateOf x)"
  by (cases x) (simp_all add: assms)

lemma processLine_null [simp]: "processLine rt six gs JNull = Thrown gs"
  by (simp add: processLine_def)

lemma processLine_nonnull:
  "line \<noteq> JNull \<Longrightarrow>
   processLine rt six gs line =
     andThen
       (countToolCalls rt
          (trackBranch rt (countMessage (trackTimestamp rt six gs line) line) line) line)
       (\<lambda>gs'. trackModel rt gs' line)"
  by (cases line) (simp_all add: processLine_def)


lemma isObject_getProp: "isObject v \<Longrightarrow> getProp v k = Inr (field v k)"
  by (cases v) simp_all

lemma countBlocks_Normal:
  "list_all isObject blocks \<Longrightarrow> \<exists>gs'. countBlocks rt gs blocks = Normal gs'"
  by (induction blocks arbitrary: gs) (auto simp: isObject_getProp Let_def split: prod.splits)

lemma shortNameOf_string: "shortNameOf (JStr m) = Inr (JStr (shortName m))"
  by (simp add: shortNameOf_def shortName_def)

lemma countToolCalls_Normal:
  assumes "blocksOK line"
  shows "\<exists>gs'. countToolCalls rt gs line = Normal gs'"
proof (cases "optChain (field line ''message'') ''content''")
  case None
  then show ?thesis by (simp add: countToolCalls_def)
next
  case (Some content)
  show ?thesis
  proof (cases content)
    case (JArr blocks)
    with Some assms have "list_all isObject blocks" by (simp add: blocksOK_def)
    from countBlocks_Normal [OF this] Some JArr show ?thesis
      by (simp add: countToolCalls_def)
  qed (use Some in \<open>simp_all add: countToolCalls_def\<close>)
qed

lemma trackModel_Normal:
  assumes "modelOK line"
  shows "\<exists>gs'. trackModel rt gs line = Normal gs'"
proof (cases "optChain (field line ''message'') ''model''")
  case None
  then show ?thesis by (simp add: trackModel_def)
next
  case (Some model)
  with assms show ?thesis
    by (cases model; cases gs) (simp_all add: modelOK_def trackModel_def shortNameOf_string)
qed

lemma processLine_Normal:
  assumes "wellFormedRecord line"
  shows "\<exists>gs'. processLine rt six gs line = Normal gs'"
proof -
  from assms have nn: "line \<noteq> JNull" and bo: "blocksOK line" and mo: "modelOK line"
    by (auto simp: wellFormedRecord_def)
  let ?a = "trackBranch rt (countMessage (trackTimestamp rt six gs line) line) line"
  from countToolCalls_Normal [OF bo] obtain b where b: "countToolCalls rt ?a line = Normal b"
    by blast
  from trackModel_Normal [OF mo] obtain c where "trackModel rt b line = Normal c"
    by blast
  with b show ?thesis by (simp add: processLine_nonnull [OF nn])
qed

lemma processLines_Cons_Normal:
  assumes "processLines rt six gs (line # lines) = Normal gs'"
  obtains a where "processLine rt six gs line = Normal a"
    and "processLines rt six a lines = Normal gs'"
  using assms by (cases "processLine rt six gs line") simp_all

lemma processLines_Normal:
  "list_all wellFormedRecord lines \<Longrightarrow> \<exists>gs'. processLines rt six gs lines = Normal gs'"
proof (induction lines arbitrary: gs)
  case Nil
  show ?case by simp
next
  case (Cons line lines)
  from Cons.prems have "wellFormedRecord line" and rest: "list_all wellFormedRecord lines"
    by simp_all
  from processLine_Normal [OF this(1)] obtain a where a: "processLine rt six gs line = Normal a"
    by blast
  from Cons.IH [OF rest, of a] a show ?case by simp
qed








lemma map_of_assign: "map_of (assign obj k v) = (map_of obj)(k \<mapsto> v)"
  by (induction obj) (auto simp: fun_eq_iff)

lemma keys_assign:
  "map fst (assign obj k v) = (if k \<in> set (map fst obj) then map fst obj else map fst obj @ [k])"
  by (induction obj) (auto simp: image_iff, force+)

lemma safe_not_proto: "k \<notin> set objectPrototypeNames \<Longrightarrow> k \<noteq> ''__proto__''"
  by (auto simp: objectPrototypeNames_def)

lemma countersKept_map_of:
  assumes "countersKept obj" and "k \<notin> set objectPrototypeNames" and "map_of obj k = Some v"
  shows "isNum v"
proof -
  from assms(3) have "(k, v) \<in> set obj" by (rule map_of_SomeD)
  with assms(1) have "isNum v \<or> k \<in> set objectPrototypeNames"
    by (auto simp: countersKept_def list_all_iff)
  with assms(2) show ?thesis by simp
qed

lemma increment_safe:
  assumes "countersKept obj" and "k \<notin> set objectPrototypeNames"
  shows "increment rt obj k = assign obj k (CNum (countOf obj k + 1))"
proof (cases "map_of obj k")
  case None
  with assms(2) show ?thesis
    by (simp add: increment_def assignOwn_def countOf_def safe_not_proto)
next
  case (Some v)
  from countersKept_map_of [OF assms Some] obtain c where "v = CNum c" by (cases v) simp_all
  with Some assms(2) show ?thesis
    by (simp add: increment_def assignOwn_def countOf_def safe_not_proto)
qed

lemma countOf_increment:
  assumes "countersKept obj" and "k \<notin> set objectPrototypeNames"
  shows "countOf (increment rt obj k) k' = countOf obj k' + (if k' = k then 1 else 0)"
  by (simp add: increment_safe [OF assms] countOf_def map_of_assign)

lemma set_assign: "set (assign obj k v) \<subseteq> insert (k, v) (set obj)"
  by (induction obj) (auto split: if_splits)

lemma countersKept_assign:
  assumes "countersKept obj" and "isNum v \<or> k \<in> set objectPrototypeNames"
  shows "countersKept (assign obj k v)"
  using assms set_assign [of obj k v]
  by (auto simp: countersKept_def list_all_iff)

lemma countersKept_increment:
  assumes "countersKept obj"
  shows "countersKept (increment rt obj k)"
proof (cases "k \<in> set objectPrototypeNames")
  case True
  with assms show ?thesis
    by (simp add: increment_def assignOwn_def countersKept_assign)
next
  case False
  with assms show ?thesis
    by (simp add: increment_safe countersKept_assign)
qed

lemma sum_list_indicator:
  "distinct ks \<Longrightarrow>
   sum_list (map (\<lambda>x. if x = k then 1 else 0) ks) = (if k \<in> set ks then 1 else (0::nat))"
  by (induction ks) auto

lemma remdups_snoc: "k \<notin> set xs \<Longrightarrow> remdups (xs @ [k]) = remdups xs @ [k]"
  by (induction xs) auto

lemma sumOverNames_increment:
  assumes "countersKept obj" and "k \<notin> set objectPrototypeNames"
  shows "sumOverNames (increment rt obj k) = sumOverNames obj + 1"
proof -
  let ?ks = "remdups (map fst obj)"
  have inc: "increment rt obj k = assign obj k (CNum (countOf obj k + 1))"
    by (rule increment_safe [OF assms])
  have cnt: "countOf (increment rt obj k) = (\<lambda>k'. countOf obj k' + (if k' = k then 1 else 0))"
    by (rule ext) (rule countOf_increment [OF assms])
  have split: "sum_list (map (\<lambda>k'. countOf obj k' + (if k' = k then 1 else 0)) xs)
          = sum_list (map (countOf obj) xs) + sum_list (map (\<lambda>x. if x = k then 1 else 0) xs)" for xs
    by (simp add: sum_list_addf)
  show ?thesis
  proof (cases "k \<in> set (map fst obj)")
    case True
    then have "map fst (increment rt obj k) = map fst obj"
      by (simp add: inc keys_assign)
    then have "sumOverNames (increment rt obj k)
                 = sum_list (map (\<lambda>k'. countOf obj k' + (if k' = k then 1 else 0)) ?ks)"
      by (simp add: sumOverNames_def cnt)
    also have "\<dots> = sum_list (map (countOf obj) ?ks) + 1"
      using True by (simp only: split) (simp add: sum_list_indicator)
    finally show ?thesis by (simp add: sumOverNames_def)
  next
    case False
    then have "map fst (increment rt obj k) = map fst obj @ [k]"
      by (simp add: inc keys_assign)
    then have "sumOverNames (increment rt obj k)
                 = sum_list (map (\<lambda>k'. countOf obj k' + (if k' = k then 1 else 0)) (?ks @ [k]))"
      using False by (simp add: sumOverNames_def cnt remdups_snoc)
    also have "\<dots> = sum_list (map (countOf obj) ?ks) + countOf obj k + 1"
      using False by (simp only: split) (simp add: sum_list_indicator)
    also have "countOf obj k = 0"
    proof -
      from False have "map_of obj k = None" by (simp add: map_of_eq_None_iff)
      then show ?thesis by (simp add: countOf_def)
    qed
    finally show ?thesis by (simp add: sumOverNames_def)
  qed
qed

subsection \<open>Tool calls\<close>

lemma countBlocks_tools:
  assumes "countersKept (toolCounts (fst gs))"
    and "\<forall>k \<in> set (map (\<lambda>block. propertyKey rt (toolNameOf block)) (filter isToolUse blocks)).
           k \<notin> set objectPrototypeNames"
  shows "countersKept (toolCounts (fst (stateOf (countBlocks rt gs blocks))))
         \<and> sumOverNames (toolCounts (fst (stateOf (countBlocks rt gs blocks))))
             + sessionToolCalls (snd gs)
           = sumOverNames (toolCounts (fst gs))
             + sessionToolCalls (snd (stateOf (countBlocks rt gs blocks)))"
  using assms
proof (induction blocks arbitrary: gs)
  case Nil
  then show ?case by simp
next
  case (Cons block blocks)
  obtain g s where gs: "gs = (g, s)" by (cases gs)
  show ?case
  proof (cases "getProp block ''type''")
    case (Inl e)
    with Cons.prems(1) show ?thesis by simp
  next
    case (Inr ty)
    then have ty: "ty = field block ''type''" by (cases block) simp_all
    show ?thesis
    proof (cases "ty = Some (JStr ''tool_use'')")
      case False
      with ty have "\<not> isToolUse block" by (simp add: isToolUse_def)
      with Inr False Cons.IH [of gs] Cons.prems show ?thesis by simp
    next
      case True
      with ty have tu: "isToolUse block" by (simp add: isToolUse_def)
      let ?k = "propertyKey rt (toolNameOf block)"
      let ?gs' = "(g\<lparr>toolCounts := increment rt (toolCounts g) ?k\<rparr>,
                   s\<lparr>sessionToolCalls := sessionToolCalls s + 1\<rparr>)"
      have step: "countBlocks rt gs (block # blocks) = countBlocks rt ?gs' blocks"
        using Inr True by (simp add: gs)
      from Cons.prems(2) tu have safe: "?k \<notin> set objectPrototypeNames"
        and rest: "\<forall>k \<in> set (map (\<lambda>block. propertyKey rt (toolNameOf block))
                                 (filter isToolUse blocks)).
                     k \<notin> set objectPrototypeNames"
        by simp_all
      from Cons.prems(1) have kept: "countersKept (toolCounts g)" by (simp add: gs)
      have kept': "countersKept (toolCounts (fst ?gs'))"
        using countersKept_increment [OF kept] by simp
      from Cons.IH [OF kept' rest] sumOverNames_increment [OF kept safe, of rt]
      show ?thesis
        by (simp only: step) (simp add: gs)
    qed
  qed
qed

lemma countBlocks_calls:
  "countBlocks rt gs blocks = Normal gs' \<Longrightarrow>
   sessionToolCalls (snd gs') = sessionToolCalls (snd gs) + length (filter isToolUse blocks)"
proof (induction blocks arbitrary: gs)
  case Nil
  then show ?case by simp
next
  case (Cons block blocks)
  obtain g s where gs: "gs = (g, s)" by (cases gs)
  show ?case
  proof (cases "getProp block ''type''")
    case (Inl e)
    with Cons.prems show ?thesis by simp
  next
    case (Inr ty)
    then have ty: "ty = field block ''type''" by (cases block) simp_all
    show ?thesis
    proof (cases "ty = Some (JStr ''tool_use'')")
      case False
      with ty have "\<not> isToolUse block" by (simp add: isToolUse_def)
      with Inr False Cons.IH [of gs] Cons.prems show ?thesis by simp
    next
      case True
      with ty have tu: "isToolUse block" by (simp add: isToolUse_def)
      let ?gs' = "(g\<lparr>toolCounts := increment rt (toolCounts g) (propertyKey rt (toolNameOf block))\<rparr>,
                   s\<lparr>sessionToolCalls := sessionToolCalls s + 1\<rparr>)"
      from Cons.prems Inr True have "countBlocks rt ?gs' blocks = Normal gs'"
        by (simp add: gs)
      from Cons.IH [OF this] tu show ?thesis by (simp add: gs)
    qed
  qed
qed

lemma countToolCalls_tools:
  assumes "countersKept (toolCounts (fst gs))"
    and "\<forall>k \<in> set (lineToolKeys rt line). k \<notin> set objectPrototypeNames"
  shows "countersKept (toolCounts (fst (stateOf (countToolCalls rt gs line))))
         \<and> sumOverNames (toolCounts (fst (stateOf (countToolCalls rt gs line))))
             + sessionToolCalls (snd gs)
           = sumOverNames (toolCounts (fst gs))
             + sessionToolCalls (snd (stateOf (countToolCalls rt gs line)))"
proof (cases "field line ''type'' = Some (JStr ''assistant'')")
  case False
  with assms(1) show ?thesis by (simp add: countToolCalls_def)
next
  case True
  show ?thesis
  proof (cases "optChain (field line ''message'') ''content''")
    case None
    with True assms(1) show ?thesis by (simp add: countToolCalls_def)
  next
    case (Some content)
    show ?thesis
    proof (cases content)
      case (JArr blocks)
      with True Some assms(2)
      have "\<forall>k \<in> set (map (\<lambda>block. propertyKey rt (toolNameOf block)) (filter isToolUse blocks)).
              k \<notin> set objectPrototypeNames"
        by (simp add: lineToolKeys_def)
      from countBlocks_tools [OF assms(1) this] True Some JArr show ?thesis
        by (simp add: countToolCalls_def)
    qed (use True Some assms(1) in \<open>simp_all add: countToolCalls_def\<close>)
  qed
qed

lemma countToolCalls_calls:
  assumes "countToolCalls rt gs line = Normal gs'"
  shows "sessionToolCalls (snd gs') = sessionToolCalls (snd gs) + length (lineToolKeys rt line)"
proof (cases "field line ''type'' = Some (JStr ''assistant'')")
  case False
  with assms show ?thesis by (simp add: countToolCalls_def lineToolKeys_def)
next
  case True
  show ?thesis
  proof (cases "optChain (field line ''message'') ''content''")
    case None
    with True assms show ?thesis by (simp add: countToolCalls_def lineToolKeys_def)
  next
    case (Some content)
    show ?thesis
    proof (cases content)
      case (JArr blocks)
      with True Some assms have "countBlocks rt gs blocks = Normal gs'"
        by (simp add: countToolCalls_def)
      from countBlocks_calls [OF this] True Some JArr show ?thesis
        by (simp add: lineToolKeys_def)
    qed (use True Some assms in \<open>simp_all add: countToolCalls_def lineToolKeys_def\<close>)
  qed
qed

lemma andThen_Normal:
  assumes "andThen x f = Normal b"
  obtains a where "x = Normal a" and "f a = Normal b"
  using assms by (cases x) simp_all

text \<open>
  One record, processed to completion: the tool-call count grows by the number of the
  record's tool keys, and so does the sum over the names when none of these keys names
  a member of \<open>Object.prototype\<close>.
\<close>

lemma processLine_tools:
  assumes run: "processLine rt six gs line = Normal gs'"
    and kept: "countersKept (toolCounts (fst gs))"
    and safe: "\<forall>k \<in> set (lineToolKeys rt line). k \<notin> set objectPrototypeNames"
  shows "countersKept (toolCounts (fst gs'))
         \<and> sumOverNames (toolCounts (fst gs')) + sessionToolCalls (snd gs)
           = sumOverNames (toolCounts (fst gs)) + sessionToolCalls (snd gs')"
proof -
  from run have nn: "line \<noteq> JNull" by (cases line) simp_all
  let ?a = "trackBranch rt (countMessage (trackTimestamp rt six gs line) line) line"
  from run obtain b where b: "countToolCalls rt ?a line = Normal b"
    and m: "trackModel rt b line = Normal gs'"
    unfolding processLine_nonnull [OF nn] by (rule andThen_Normal)
  have a: "toolCounts (fst ?a) = toolCounts (fst gs)"
    "sessionToolCalls (snd ?a) = sessionToolCalls (snd gs)"
    by simp_all
  from kept a have "countersKept (toolCounts (fst ?a))" by simp
  from countToolCalls_tools [OF this safe] b a
  have "countersKept (toolCounts (fst b))
        \<and> sumOverNames (toolCounts (fst b)) + sessionToolCalls (snd gs)
          = sumOverNames (toolCounts (fst gs)) + sessionToolCalls (snd b)"
    by simp
  moreover from m trackModel_simps(1,2) [of rt b line]
  have "snd gs' = snd b" "toolCounts (fst gs') = toolCounts (fst b)" by simp_all
  ultimately show ?thesis by simp
qed

lemma processLine_calls:
  assumes run: "processLine rt six gs line = Normal gs'"
  shows "sessionToolCalls (snd gs') = sessionToolCalls (snd gs) + length (lineToolKeys rt line)"
proof -
  from run have nn: "line \<noteq> JNull" by (cases line) simp_all
  let ?a = "trackBranch rt (countMessage (trackTimestamp rt six gs line) line) line"
  from run obtain b where b: "countToolCalls rt ?a line = Normal b"
    and m: "trackModel rt b line = Normal gs'"
    unfolding processLine_nonnull [OF nn] by (rule andThen_Normal)
  have a: "sessionToolCalls (snd ?a) = sessionToolCalls (snd gs)" by simp
  from m trackModel_simps(1) [of rt b line] have "snd gs' = snd b" by simp
  with countToolCalls_calls [OF b] a show ?thesis by simp
qed

lemma processLines_tools:
  assumes "processLines rt six gs lines = Normal gs'"
    and "countersKept (toolCounts (fst gs))"
    and "\<forall>k \<in> set (fileToolKeys rt lines). k \<notin> set objectPrototypeNames"
  shows "countersKept (toolCounts (fst gs'))
         \<and> sumOverNames (toolCounts (fst gs')) + sessionToolCalls (snd gs)
           = sumOverNames (toolCounts (fst gs)) + sessionToolCalls (snd gs')"
  using assms
proof (induction lines arbitrary: gs)
  case Nil
  then show ?case by simp
next
  case (Cons line lines)
  from Cons.prems(1) obtain a where a: "processLine rt six gs line = Normal a"
    and r: "processLines rt six a lines = Normal gs'"
    by (rule processLines_Cons_Normal)
  from Cons.prems(3) have one: "\<forall>k \<in> set (lineToolKeys rt line). k \<notin> set objectPrototypeNames"
    and rest: "\<forall>k \<in> set (fileToolKeys rt lines). k \<notin> set objectPrototypeNames"
    by (simp_all add: fileToolKeys_def)
  from processLine_tools [OF a Cons.prems(2) one]
  have ka: "countersKept (toolCounts (fst a))"
    and ba: "sumOverNames (toolCounts (fst a)) + sessionToolCalls (snd gs)
               = sumOverNames (toolCounts (fst gs)) + sessionToolCalls (snd a)"
    by simp_all
  from Cons.IH [OF r ka rest] ba show ?case by simp
qed

lemma processLines_calls:
  "processLines rt six gs lines = Normal gs' \<Longrightarrow>
   sessionToolCalls (snd gs') = sessionToolCalls (snd gs) + length (fileToolKeys rt lines)"
proof (induction lines arbitrary: gs)
  case Nil
  then show ?case by (simp add: fileToolKeys_def)
next
  case (Cons line lines)
  from Cons.prems obtain a where a: "processLine rt six gs line = Normal a"
    and r: "processLines rt six a lines = Normal gs'"
    by (rule processLines_Cons_Normal)
  from Cons.IH [OF r] processLine_calls [OF a] show ?case
    by (simp add: fileToolKeys_def)
qed

lemma tallyEntries_toolCalls:
  "totalToolCalls (tallyEntries rt t entries)
     = totalToolCalls t + sum_list (map (matchesIn rt) entries)"
  unfolding tallyEntries_def
  by (induction entries arbitrary: t) (simp_all add: tallyEntry_def)

lemma exampleLines_run:
  "processLines exampleRuntime 0 (initialGlobals, newSession) exampleLines
     = Normal (exampleAfter, exampleSession)"
  by (simp add: exampleLines_def processLine_def trackTimestamp_def countMessage_def
        trackBranch_def countToolCalls_def trackModel_def shortNameOf_def countSession_def
        isMessage_def increment_def exampleRuntime_def initialGlobals_def newSession_def
        getHours_def getDay_def getDateStr_def bumpAt_def setAdd_def emptyEntry_def Let_def
        exampleAfter_def exampleSession_def assignOwn_def objectPrototypeNames_def
        toolNameOf_def)

text \<open>
  The slip that the amended claim leaves out: a tool named \<open>constructor\<close> counts as a
  tool call of the session, and the counter object gets a string for it, not a count.
\<close>

lemma tool_named_constructor:
  "processLines exampleRuntime 0 (initialGlobals, newSession) [exampleConstructor]
     = Normal
         (initialGlobals
            \<lparr>toolCounts := [(''constructor'', CStr ''function Object() { [native code] }1'')]\<rparr>,
          newSession\<lparr>sessionMessages := 1, sessionToolCalls := 1\<rparr>)"
  by (simp add: exampleConstructor_def processLine_def trackTimestamp_def countMessage_def
        trackBranch_def countToolCalls_def trackModel_def isMessage_def increment_def
        assignOwn_def objectPrototypeNames_def toolNameOf_def exampleRuntime_def
        initialGlobals_def newSession_def)

lemma exampleMention_run:
  "processLines exampleRuntime 0 (initialGlobals, newSession) [exampleMention]
     = Normal (initialGlobals, newSession\<lparr>sessionMessages := 1\<rparr>)"
  by (simp add: exampleMention_def processLine_def trackTimestamp_def countMessage_def
        trackBranch_def countToolCalls_def trackModel_def isMessage_def newSession_def)

text \<open>
  C5, as the claim states it, fails in the server's project listing: for a session file
  whose one record is a user message with the text \<open>tool_use\<close>, there is no \<open>tool_use\<close>
  block and no per-tool count, so that the sum over the tool names is 0, and the total
  tool-call count that the server records for the file is 1.
\<close>

theorem server_total_counts_text_matches:
  "fileToolKeys exampleRuntime [exampleMention] = []
   \<and> processLines exampleRuntime 0 (initialGlobals, newSession) [exampleMention]
       = Normal (initialGlobals, newSession\<lparr>sessionMessages := 1\<rparr>)
   \<and> sumOverNames (toolCounts initialGlobals) = 0
   \<and> totalToolCalls
         (tallyEntries exampleRuntime \<lparr>totalMessages = 0, totalToolCalls = 0, branches = []\<rparr>
            [exampleMention]) = 1"
proof -
  have "fileToolKeys exampleRuntime [exampleMention] = []"
    by (simp add: fileToolKeys_def lineToolKeys_def exampleMention_def)
  moreover have "sumOverNames (toolCounts initialGlobals) = 0"
    by (simp add: sumOverNames_def initialGlobals_def)
  moreover have "totalToolCalls
         (tallyEntries exampleRuntime \<lparr>totalMessages = 0, totalToolCalls = 0, branches = []\<rparr>
            [exampleMention]) = 1"
    by (simp add: tallyEntries_def tallyEntry_def matchesIn_def exampleMention_def)
  ultimately show ?thesis using exampleMention_run by simp
qed

text \<open>
  C5, amended: in the comprehensive generator, when the walk of a session file
  completes and no tool of the file has the name of a member of \<open>Object.prototype\<close>,
  the sum over the tool names of the per-tool counts has grown by the number of the
  file's \<open>tool_use\<close> blocks, which is the session's tool-call count and what the file
  adds to its project's tool-call total. (The counter object is taken as the scan keeps
  it, \<open>countersKept\<close>: it starts empty and every walk keeps it so.) The server keeps no per-tool counts: the total
  that it records for a file is the number of matches of \<open>tool_use\<close> or
  \<open>function_call\<close> in the text of the message contents of the file's records.
\<close>

theorem per_tool_counts_sum_to_tool_calls:
  assumes "processLines rt six (g, newSession) lines = Normal (g', s')"
    and "countersKept (toolCounts g)"
    and "\<forall>k \<in> set (fileToolKeys rt lines). k \<notin> set objectPrototypeNames"
  shows "sumOverNames (toolCounts g') = sumOverNames (toolCounts g) + sessionToolCalls s'
         \<and> sessionToolCalls s' = length (fileToolKeys rt lines)
         \<and> processSession rt six lines filename (g, Some p)
             = Normal (g', Some (updateProject rt s' p))
         \<and> proj_toolCalls (updateProject rt s' p) = proj_toolCalls p + sessionToolCalls s'
         \<and> totalToolCalls (tallyEntries rt t lines)
             = totalToolCalls t + sum_list (map (matchesIn rt) lines)"
proof -
  from assms(2) have "countersKept (toolCounts (fst (g, newSession)))" by simp
  from processLines_tools [OF assms(1) this assms(3)]
  have "sumOverNames (toolCounts g') = sumOverNames (toolCounts g) + sessionToolCalls s'"
    by (simp add: newSession_def)
  moreover from processLines_calls [OF assms(1)]
  have "sessionToolCalls s' = length (fileToolKeys rt lines)"
    by (simp add: newSession_def)
  moreover have "processSession rt six lines filename (g, Some p)
                   = Normal (g', Some (updateProject rt s' p))"
    by (simp add: processSession_def assms(1))
  moreover have "proj_toolCalls (updateProject rt s' p) = proj_toolCalls p + sessionToolCalls s'"
    by (simp add: updateProject_def)
  ultimately show ?thesis using tallyEntries_toolCalls by blast
qed

lemma exampleLines_toolKeys: "fileToolKeys exampleRuntime exampleLines = [''Read'']"
  by (simp add: fileToolKeys_def lineToolKeys_def exampleLines_def isToolUse_def toolNameOf_def)

theorem per_tool_counts_witness:
  "processLines exampleRuntime 0 (initialGlobals, newSession) exampleLines
     = Normal (exampleAfter, exampleSession)
   \<and> countersKept (toolCounts initialGlobals)
   \<and> fileToolKeys exampleRuntime exampleLines = [''Read'']
   \<and> ''Read'' \<notin> set objectPrototypeNames
   \<and> sumOverNames (toolCounts exampleAfter) = 1
   \<and> sessionToolCalls exampleSession = 1
   \<and> proj_toolCalls (updateProject exampleRuntime exampleSession (newProject ''p'')) = 1"
proof -
  have kept: "countersKept (toolCounts initialGlobals)"
    by (simp add: countersKept_def initialGlobals_def)
  have safe: "\<forall>k \<in> set (fileToolKeys exampleRuntime exampleLines). k \<notin> set objectPrototypeNames"
    by (simp add: exampleLines_toolKeys objectPrototypeNames_def)
  have zero: "sumOverNames (toolCounts initialGlobals) = 0"
    by (simp add: sumOverNames_def initialGlobals_def)
  have "proj_toolCalls (newProject ''p'') = 0" by (simp add: newProject_def)
  with per_tool_counts_sum_to_tool_calls
         [OF exampleLines_run kept safe, of "''a.jsonl''" "newProject ''p''"
             "\<lparr>totalMessages = 0, totalToolCalls = 0, branches = []\<rparr>"]
    exampleLines_run kept safe zero
  show ?thesis by (simp add: exampleLines_toolKeys objectPrototypeNames_def)
qed

subsection \<open>Branches\<close>

lemma trackBranch_branch:
  "branch (snd (trackBranch rt gs line))
     = (if carriesBranch line \<and> \<not> truthyO (branch (snd gs))
        then field line ''gitBranch'' else branch (snd gs))"
  "branchCounts (fst (trackBranch rt gs line))
     = (if carriesBranch line \<and> \<not> truthyO (branch (snd gs))
        then increment rt (branchCounts (fst gs)) (propertyKey rt (the (field line ''gitBranch'')))
        else branchCounts (fst gs))"
  by (cases gs; simp add: trackBranch_def carriesBranch_def split: option.splits)+

lemma processLine_branch:
  "branch (snd (stateOf (processLine rt six gs line)))
     = (if carriesBranch line \<and> \<not> truthyO (branch (snd gs))
        then field line ''gitBranch'' else branch (snd gs))"
  "branchCounts (fst (stateOf (processLine rt six gs line)))
     = (if carriesBranch line \<and> \<not> truthyO (branch (snd gs))
        then increment rt (branchCounts (fst gs)) (propertyKey rt (the (field line ''gitBranch'')))
        else branchCounts (fst gs))"
proof -
  show "branch (snd (stateOf (processLine rt six gs line)))
     = (if carriesBranch line \<and> \<not> truthyO (branch (snd gs))
        then field line ''gitBranch'' else branch (snd gs))"
  proof (cases "line = JNull")
    case True
    then show ?thesis by (simp add: carriesBranch_def)
  next
    case False
    show ?thesis
      unfolding processLine_nonnull [OF False]
      by (subst stateOf_andThen_pres [where Q = "\<lambda>gs. branch (snd gs)"])
         (simp_all add: trackBranch_branch)
  qed
  show "branchCounts (fst (stateOf (processLine rt six gs line)))
     = (if carriesBranch line \<and> \<not> truthyO (branch (snd gs))
        then increment rt (branchCounts (fst gs)) (propertyKey rt (the (field line ''gitBranch'')))
        else branchCounts (fst gs))"
  proof (cases "line = JNull")
    case True
    then show ?thesis by (simp add: carriesBranch_def)
  next
    case False
    show ?thesis
      unfolding processLine_nonnull [OF False]
      by (subst stateOf_andThen_pres [where Q = "\<lambda>gs. branchCounts (fst gs)"])
         (simp_all add: trackBranch_branch)
  qed
qed

lemma firstBranch_simps:
  "firstBranch [] = None"
  "firstBranch (line # lines)
     = (if carriesBranch line then field line ''gitBranch'' else firstBranch lines)"
  by (simp_all add: firstBranch_def)

lemma carriesBranch_truthy: "carriesBranch line \<Longrightarrow> truthyO (field line ''gitBranch'')"
  by (simp add: carriesBranch_def)

lemma firstBranch_truthy: "firstBranch lines = Some b \<Longrightarrow> truthy b"
  by (induction lines) (auto simp: firstBranch_simps carriesBranch_def split: if_splits)

lemma processLines_branch:
  assumes "processLines rt six gs lines = Normal gs'"
  shows "branch (snd gs')
           = (if truthyO (branch (snd gs)) then branch (snd gs)
              else (case firstBranch lines of None \<Rightarrow> branch (snd gs) | Some b \<Rightarrow> Some b))
         \<and> branchCounts (fst gs')
           = (if truthyO (branch (snd gs)) then branchCounts (fst gs)
              else (case firstBranch lines of
                      None \<Rightarrow> branchCounts (fst gs)
                    | Some b \<Rightarrow> increment rt (branchCounts (fst gs)) (propertyKey rt b)))"
  using assms
proof (induction lines arbitrary: gs)
  case Nil
  then show ?case by (simp add: firstBranch_simps)
next
  case (Cons line lines)
  from Cons.prems obtain a where a: "processLine rt six gs line = Normal a"
    and r: "processLines rt six a lines = Normal gs'"
    by (rule processLines_Cons_Normal)
  have ba: "branch (snd a)
              = (if carriesBranch line \<and> \<not> truthyO (branch (snd gs))
                 then field line ''gitBranch'' else branch (snd gs))"
    and ca: "branchCounts (fst a)
              = (if carriesBranch line \<and> \<not> truthyO (branch (snd gs))
                 then increment rt (branchCounts (fst gs))
                        (propertyKey rt (the (field line ''gitBranch'')))
                 else branchCounts (fst gs))"
    using processLine_branch [of rt six gs line] by (simp_all only: a stateOf.simps)
  show ?case
  proof (cases "truthyO (branch (snd gs))")
    case True
    with ba ca Cons.IH [OF r] show ?thesis by simp
  next
    case False
    show ?thesis
    proof (cases "carriesBranch line")
      case True
      then obtain b where b: "field line ''gitBranch'' = Some b" and tb: "truthy b"
        by (cases "field line ''gitBranch''") (simp_all add: carriesBranch_def)
      with True False ba ca Cons.IH [OF r] show ?thesis
        by (simp add: firstBranch_simps)
    next
      case nc: False
      from nc False ba ca have "branch (snd a) = branch (snd gs)"
        and "branchCounts (fst a) = branchCounts (fst gs)" and "\<not> truthyO (branch (snd a))"
        by simp_all
      with nc False Cons.IH [OF r] show ?thesis
        by (simp add: firstBranch_simps split: option.splits)
    qed
  qed
qed

lemma exampleEmptyBranch_run:
  "processLines exampleRuntime 0 (initialGlobals, newSession) exampleEmptyBranch
     = Normal (initialGlobals\<lparr>branchCounts := [(''main'', CNum 1)]\<rparr>,
               newSession\<lparr>branch := Some (JStr ''main'')\<rparr>)"
  by (simp add: exampleEmptyBranch_def processLine_def trackTimestamp_def countMessage_def
        trackBranch_def countToolCalls_def trackModel_def isMessage_def increment_def
        assignOwn_def objectPrototypeNames_def initialGlobals_def newSession_def)

text \<open>
  The slip that the amended claim leaves out: a session on a branch named \<open>__proto__\<close>
  leaves the branch counters as they were.
\<close>

lemma branch_named_proto:
  "processLines exampleRuntime 0 (initialGlobals, newSession)
     [JObj [(''gitBranch'', JStr ''__proto__'')]]
   = Normal (initialGlobals, newSession\<lparr>branch := Some (JStr ''__proto__'')\<rparr>)"
  by (simp add: processLine_def trackTimestamp_def countMessage_def trackBranch_def
        countToolCalls_def trackModel_def isMessage_def increment_def assignOwn_def
        initialGlobals_def newSession_def)

text \<open>
  C9, as the claim states it, fails: in a session whose first record carries an empty
  \<open>gitBranch\<close> and whose second record is on the branch \<open>main\<close>, the first record that
  carries the field causes no increment, and the later record does: the count of
  \<open>main\<close> is 1 after the walk.
\<close>

theorem empty_branch_is_passed_over:
  "field (hd exampleEmptyBranch) ''gitBranch'' = Some (JStr [])
   \<and> processLines exampleRuntime 0 (initialGlobals, newSession) exampleEmptyBranch
       = Normal (initialGlobals\<lparr>branchCounts := [(''main'', CNum 1)]\<rparr>,
                 newSession\<lparr>branch := Some (JStr ''main'')\<rparr>)
   \<and> countOf [(''main'', CNum 1)] ''main'' = 1
   \<and> countOf [(''main'', CNum 1)] [] = 0"
  using exampleEmptyBranch_run
  by (simp add: exampleEmptyBranch_def countOf_def)

text \<open>
  C9, amended: when the walk of a session completes, the branch counters have changed in
  one place at most: the count of the \<open>gitBranch\<close> of the first record that carries a
  truthy one (an empty \<open>gitBranch\<close> is passed over like a missing one) has grown by one,
  provided that this branch does not have the name of a member of \<open>Object.prototype\<close>.
  Later records with a \<open>gitBranch\<close>, the same or another, change nothing, and a session
  without a truthy \<open>gitBranch\<close> leaves the counters as they were. (The counter object is
  taken as the scan keeps it, \<open>countersKept\<close>: it starts empty and every walk keeps it
  so.)
\<close>

theorem branch_counted_once_for_first_record:
  assumes "processLines rt six (g, newSession) lines = Normal (g', s')"
    and "countersKept (branchCounts g)"
    and "case firstBranch lines of
           None \<Rightarrow> True
         | Some b \<Rightarrow> propertyKey rt b \<notin> set objectPrototypeNames"
  shows "branchCounts g'
           = (case firstBranch lines of
                None \<Rightarrow> branchCounts g
              | Some b \<Rightarrow> increment rt (branchCounts g) (propertyKey rt b))
         \<and> countOf (branchCounts g') k
           = countOf (branchCounts g) k
             + (case firstBranch lines of
                  None \<Rightarrow> 0
                | Some b \<Rightarrow> if k = propertyKey rt b then 1 else 0)
         \<and> branch s' = firstBranch lines"
proof -
  from processLines_branch [OF assms(1)]
  have b: "branch s' = firstBranch lines"
    and c: "branchCounts g'
              = (case firstBranch lines of
                   None \<Rightarrow> branchCounts g
                 | Some b \<Rightarrow> increment rt (branchCounts g) (propertyKey rt b))"
    by (simp_all add: newSession_def split: option.splits)
  have "countOf (branchCounts g') k
           = countOf (branchCounts g) k
             + (case firstBranch lines of
                  None \<Rightarrow> 0
                | Some b \<Rightarrow> if k = propertyKey rt b then 1 else 0)"
  proof (cases "firstBranch lines")
    case None
    with c show ?thesis by simp
  next
    case (Some fb)
    with assms(3) have "propertyKey rt fb \<notin> set objectPrototypeNames" by simp
    from countOf_increment [OF assms(2) this, of rt k] c Some show ?thesis by simp
  qed
  with b c show ?thesis by blast
qed

lemma exampleLines_firstBranch: "firstBranch exampleLines = Some (JStr ''main'')"
  by (simp add: firstBranch_def exampleLines_def carriesBranch_def)

theorem branch_counted_once_witness:
  "processLines exampleRuntime 0 (initialGlobals, newSession) exampleLines
     = Normal (exampleAfter, exampleSession)
   \<and> countersKept (branchCounts initialGlobals)
   \<and> firstBranch exampleLines = Some (JStr ''main'')
   \<and> ''main'' \<notin> set objectPrototypeNames
   \<and> countOf (branchCounts exampleAfter) ''main'' = 1
   \<and> countOf (branchCounts exampleAfter) ''dev'' = 0"
proof -
  have zero: "countOf (branchCounts initialGlobals) k = 0" for k
    by (simp add: initialGlobals_def countOf_def)
  have kept: "countersKept (branchCounts initialGlobals)"
    by (simp add: countersKept_def initialGlobals_def)
  have safe: "''main'' \<notin> set objectPrototypeNames"
    by (simp add: objectPrototypeNames_def)
  then have safe': "case firstBranch exampleLines of
                      None \<Rightarrow> True
                    | Some b \<Rightarrow> propertyKey exampleRuntime b \<notin> set objectPrototypeNames"
    by (simp add: exampleLines_firstBranch)
  from branch_counted_once_for_first_record [OF exampleLines_run kept safe', of "''main''"]
  have "countOf (branchCounts exampleAfter) ''main'' = 1"
    by (simp add: exampleLines_firstBranch zero countOf_increment [OF kept safe])
  moreover from branch_counted_once_for_first_record [OF exampleLines_run kept safe', of "''dev''"]
  have "countOf (branchCounts exampleAfter) ''dev'' = 0"
    by (simp add: exampleLines_firstBranch zero countOf_increment [OF kept safe])
  ultimately show ?thesis
    using exampleLines_run exampleLines_firstBranch kept safe by simp
qed

subsection \<open>The counter objects stay as the scan keeps them\<close>

lemma countBlocks_kept:
  "countersKept (toolCounts (fst gs)) \<Longrightarrow>
   countersKept (toolCounts (fst (stateOf (countBlocks rt gs blocks))))"
proof (induction blocks arbitrary: gs)
  case Nil
  then show ?case by simp
next
  case (Cons block blocks)
  obtain g s where gs: "gs = (g, s)" by (cases gs)
  show ?case
  proof (cases "getProp block ''type''")
    case (Inl e)
    with Cons.prems show ?thesis by simp
  next
    case (Inr ty)
    show ?thesis
    proof (cases "ty = Some (JStr ''tool_use'')")
      case False
      with Inr Cons.IH [OF Cons.prems] show ?thesis by simp
    next
      case True
      let ?gs' = "(g\<lparr>toolCounts := increment rt (toolCounts g) (propertyKey rt (toolNameOf block))\<rparr>,
                   s\<lparr>sessionToolCalls := sessionToolCalls s + 1\<rparr>)"
      from Cons.prems have "countersKept (toolCounts (fst ?gs'))"
        by (simp add: gs countersKept_increment)
      from Cons.IH [OF this] Inr True show ?thesis by (simp add: gs)
    qed
  qed
qed

lemma processLine_kept:
  assumes "countersKept (toolCounts (fst gs))" and "countersKept (branchCounts (fst gs))"
  shows "countersKept (toolCounts (fst (stateOf (processLine rt six gs line))))
         \<and> countersKept (branchCounts (fst (stateOf (processLine rt six gs line))))"
proof (cases "line = JNull")
  case True
  with assms show ?thesis by simp
next
  case False
  let ?a = "trackBranch rt (countMessage (trackTimestamp rt six gs line) line) line"
  have tools: "countersKept (toolCounts (fst (stateOf (countToolCalls rt ?a line))))"
  proof -
    from assms(1) have "countersKept (toolCounts (fst ?a))" by simp
    from countBlocks_kept [OF this] this show ?thesis
      by (simp add: countToolCalls_def split: option.splits json.splits)
  qed
  have branches: "countersKept (branchCounts (fst (stateOf (processLine rt six gs line))))"
    using assms(2) by (simp add: processLine_branch countersKept_increment)
  have "countersKept (toolCounts (fst (stateOf (processLine rt six gs line))))
          = countersKept (toolCounts (fst (stateOf (countToolCalls rt ?a line))))"
    unfolding processLine_nonnull [OF False]
    by (subst stateOf_andThen_pres [where Q = "\<lambda>gs. countersKept (toolCounts (fst gs))"])
       simp_all
  with tools branches show ?thesis by simp
qed

lemma processLines_kept:
  assumes "countersKept (toolCounts (fst gs))" and "countersKept (branchCounts (fst gs))"
  shows "countersKept (toolCounts (fst (stateOf (processLines rt six gs lines))))
         \<and> countersKept (branchCounts (fst (stateOf (processLines rt six gs lines))))"
  using assms
proof (induction lines arbitrary: gs)
  case Nil
  then show ?case by simp
next
  case (Cons line lines)
  from processLine_kept [OF Cons.prems, of rt six line]
  have k: "countersKept (toolCounts (fst (stateOf (processLine rt six gs line))))"
    "countersKept (branchCounts (fst (stateOf (processLine rt six gs line))))"
    by simp_all
  show ?case
  proof (cases "processLine rt six gs line")
    case (Normal a)
    with k Cons.IH [of a] show ?thesis by simp
  next
    case (Thrown a)
    with k show ?thesis by simp
  qed
qed

subsection \<open>Models\<close>







text \<open>
  The slip that the amended claim leaves out: for a record whose model identifier is
  \<open>constructor\<close> no entry is created and no counter of \<open>data.modelUsage\<close> grows.
\<close>

lemma model_named_constructor:
  "processLine exampleRuntime 0 (initialGlobals, newSession)
     (JObj [(''message'', JObj [(''model'', JStr ''constructor'')])])
   = Normal (initialGlobals, newSession)"
  by (simp add: processLine_def trackTimestamp_def countMessage_def trackBranch_def
        countToolCalls_def trackModel_def isMessage_def shortNameOf_def countSession_def
        objectPrototypeNames_def initialGlobals_def)






subsection \<open>Hourly and weekday buckets\<close>

lemma getHours_less: "getHours rt ts < 24"
  by (simp add: getHours_def nat_less_iff)

lemma getDay_less: "getDay rt ts < 7"
  by (simp add: getDay_def nat_less_iff)

lemma length_bumpAt [simp]: "length (bumpAt i xs) = length xs"
  by (simp add: bumpAt_def)

lemma sum_take_bumpAt:
  assumes "i < n" and "n \<le> length xs"
  shows "sum_list (take n (bumpAt i xs)) = sum_list (take n xs) + 1"
proof -
  from assms have i: "i < length xs" and it: "i < length (take n xs)" by simp_all
  have "take n (bumpAt i xs) = (take n xs)[i := take n xs ! i + 1]"
    using assms i by (simp add: bumpAt_def take_update_swap)
  then show ?thesis
    using it by (simp add: sum_list_update del: length_take)
qed

lemma grownBy_refl: "bucketsPresent g \<Longrightarrow> grownBy 0 g g"
  by (simp add: grownBy_def)

lemma grownBy_trans: "grownBy m g g' \<Longrightarrow> grownBy n g' g'' \<Longrightarrow> grownBy (m + n) g g''"
  by (simp add: grownBy_def)

lemma grownBy_same_buckets:
  "bucketsPresent g \<Longrightarrow> hourlyActivity g' = hourlyActivity g
     \<Longrightarrow> weekdayActivity g' = weekdayActivity g \<Longrightarrow> grownBy 0 g g'"
  by (simp add: grownBy_def bucketsPresent_def hourlyTotal_def weekdayTotal_def)

lemma trackTimestamp_grownBy:
  assumes "bucketsPresent (fst gs)"
  shows "grownBy (if inWindow rt six line then 1 else 0) (fst gs)
           (fst (trackTimestamp rt six gs line))"
proof (cases "inWindow rt six line")
  case False
  then have "trackTimestamp rt six gs line = gs"
    by (cases gs) (auto simp: trackTimestamp_def inWindow_def split: option.splits)
  with False assms show ?thesis by (simp add: grownBy_refl)
next
  case True
  then obtain tv ts where tv: "field line ''timestamp'' = Some tv" "truthy tv"
    and ts: "newDate rt tv = Some ts" "six \<le> ts"
    by (auto simp: inWindow_def split: option.splits)
  obtain g s where gs: "gs = (g, s)" by (cases gs)
  from tv ts have h: "hourlyActivity (fst (trackTimestamp rt six (g, s) line))
                        = bumpAt (getHours rt ts) (hourlyActivity g)"
    and w: "weekdayActivity (fst (trackTimestamp rt six (g, s) line))
                        = bumpAt (getDay rt ts) (weekdayActivity g)"
    by (simp_all add: trackTimestamp_def)
  from assms gs have p: "24 \<le> length (hourlyActivity g)" "7 \<le> length (weekdayActivity g)"
    by (simp_all add: bucketsPresent_def)
  show ?thesis
    using True p sum_take_bumpAt [OF getHours_less p(1), of rt ts]
      sum_take_bumpAt [OF getDay_less p(2), of rt ts]
    by (simp add: grownBy_def bucketsPresent_def hourlyTotal_def weekdayTotal_def h w gs)
qed

lemma processLine_buckets:
  "hourlyActivity (fst (stateOf (processLine rt six gs line)))
     = hourlyActivity (fst (trackTimestamp rt six gs line))"
  "weekdayActivity (fst (stateOf (processLine rt six gs line)))
     = weekdayActivity (fst (trackTimestamp rt six gs line))"
proof -
  have null: "trackTimestamp rt six gs JNull = gs"
    by (cases gs) (simp add: trackTimestamp_def)
  show "hourlyActivity (fst (stateOf (processLine rt six gs line)))
     = hourlyActivity (fst (trackTimestamp rt six gs line))"
  proof (cases "line = JNull")
    case True
    then show ?thesis by (simp add: null)
  next
    case False
    show ?thesis
      unfolding processLine_nonnull [OF False]
      by (subst stateOf_andThen_pres [where Q = "\<lambda>gs. hourlyActivity (fst gs)"]) simp_all
  qed
  show "weekdayActivity (fst (stateOf (processLine rt six gs line)))
     = weekdayActivity (fst (trackTimestamp rt six gs line))"
  proof (cases "line = JNull")
    case True
    then show ?thesis by (simp add: null)
  next
    case False
    show ?thesis
      unfolding processLine_nonnull [OF False]
      by (subst stateOf_andThen_pres [where Q = "\<lambda>gs. weekdayActivity (fst gs)"]) simp_all
  qed
qed

lemma grownBy_cong:
  "grownBy n g g' \<Longrightarrow> hourlyActivity g'' = hourlyActivity g'
     \<Longrightarrow> weekdayActivity g'' = weekdayActivity g' \<Longrightarrow> grownBy n g g''"
  by (simp add: grownBy_def bucketsPresent_def hourlyTotal_def weekdayTotal_def)

lemma processLine_grownBy:
  assumes "bucketsPresent (fst gs)"
  shows "grownBy (if inWindow rt six line then 1 else 0) (fst gs)
           (fst (stateOf (processLine rt six gs line)))"
  using trackTimestamp_grownBy [OF assms] processLine_buckets
  by (rule grownBy_cong)

lemma grownBy_present: "grownBy n g g' \<Longrightarrow> bucketsPresent g'"
  by (simp add: grownBy_def)

lemma processLines_grownBy:
  assumes "processLines rt six gs lines = Normal gs'" and "bucketsPresent (fst gs)"
  shows "grownBy (length (filter (inWindow rt six) lines)) (fst gs) (fst gs')"
  using assms
proof (induction lines arbitrary: gs)
  case Nil
  then show ?case by (simp add: grownBy_refl)
next
  case (Cons line lines)
  from Cons.prems(1) obtain a where a: "processLine rt six gs line = Normal a"
    and r: "processLines rt six a lines = Normal gs'"
    by (rule processLines_Cons_Normal)
  from processLine_grownBy [OF Cons.prems(2), of rt six line] a
  have one: "grownBy (if inWindow rt six line then 1 else 0) (fst gs) (fst a)" by simp
  from Cons.IH [OF r grownBy_present [OF one]]
  have "grownBy (length (filter (inWindow rt six) lines)) (fst a) (fst gs')" .
  from grownBy_trans [OF one this] show ?case by (cases "inWindow rt six line") simp_all
qed

lemma processSession_grownBy:
  assumes "processSession rt six lines filename (g, p) = Normal (g', p')" and "bucketsPresent g"
  shows "grownBy (length (filter (inWindow rt six) lines)) g g'"
proof (cases "processLines rt six (g, newSession) lines")
  case (Normal gs)
  with assms(1) have "g' = fst gs" by (cases gs) (simp add: processSession_def)
  with processLines_grownBy [OF Normal] assms(2) show ?thesis by simp
next
  case (Thrown gs)
  with assms(1) show ?thesis by (cases gs) (simp add: processSession_def)
qed

lemma scanFiles_grownBy:
  assumes "scanFiles rt six fs projectPath (g, p) files = Normal (g', p')" and "bucketsPresent g"
  shows "grownBy
           (length (filter (inWindow rt six)
              (concat (map (\<lambda>file. parseJsonl rt fs (pathJoin rt [projectPath, file]))
                         (filter (\<lambda>file. endsWith file ''.jsonl'') files)))))
           g g'"
  using assms
proof (induction files arbitrary: g p)
  case Nil
  then show ?case by (simp add: grownBy_refl)
next
  case (Cons f files)
  show ?case
  proof (cases "endsWith f ''.jsonl''")
    case False
    with Cons.prems Cons.IH [of g p] show ?thesis by simp
  next
    case True
    let ?lines = "parseJsonl rt fs (pathJoin rt [projectPath, f])"
    from Cons.prems(1) True obtain g1 p1
      where one: "processSession rt six ?lines f (g, Some p) = Normal (g1, p1)"
        and rest: "scanFiles rt six fs projectPath (g1, case_option p id p1) files = Normal (g', p')"
      by (cases "processSession rt six ?lines f (g, Some p)") (auto split: prod.splits)
    from processSession_grownBy [OF one Cons.prems(2)]
    have a: "grownBy (length (filter (inWindow rt six) ?lines)) g g1" .
    from Cons.IH [OF rest grownBy_present [OF a]] grownBy_trans [OF a] True
    show ?thesis by simp
  qed
qed

lemma scanDirs_grownBy:
  assumes "scanDirs rt six fs projectsDir (g, projectMap) dirs = Normal (g', projectMap')"
    and "bucketsPresent g"
  shows "grownBy
           (length (filter (inWindow rt six)
              (concat (map (parseJsonl rt fs) (sessionFilesOf rt fs projectsDir dirs)))))
           g g'"
  using assms
proof (induction dirs arbitrary: g projectMap)
  case Nil
  then show ?case by (simp add: grownBy_refl)
next
  case (Cons projectDir dirs)
  let ?path = "pathJoin rt [projectsDir, projectDir]"
  show ?case
  proof (cases "isDirectory fs ?path")
    case None
    with Cons.prems(1) show ?thesis by (simp add: Let_def)
  next
    case (Some isDir)
    show ?thesis
    proof (cases isDir)
      case False
      show ?thesis
      proof (cases "endsWith projectDir ''.jsonl''")
        case nf: False
        with Some False Cons.prems Cons.IH [of g projectMap] show ?thesis
          by (simp add: Let_def)
      next
        case True
        from Cons.prems(1) Some False True obtain g1 p1
          where one: "processSession rt six (parseJsonl rt fs ?path) projectDir (g, None)
                        = Normal (g1, p1)"
            and rest: "scanDirs rt six fs projectsDir (g1, projectMap) dirs = Normal (g', projectMap')"
          by (cases "processSession rt six (parseJsonl rt fs ?path) projectDir (g, None)")
             (auto simp: Let_def split: prod.splits)
        from processSession_grownBy [OF one Cons.prems(2)]
        have a: "grownBy (length (filter (inWindow rt six) (parseJsonl rt fs ?path))) g g1" .
        from Cons.IH [OF rest grownBy_present [OF a]] grownBy_trans [OF a] Some False True
        show ?thesis by (simp add: Let_def)
      qed
    next
      case True
      let ?p = "case map_of projectMap projectDir of None \<Rightarrow> newProject projectDir | Some p \<Rightarrow> p"
      from Cons.prems(1) Some True obtain files
        where files: "readdirSync fs ?path = Some files"
        by (cases "readdirSync fs ?path") (simp_all add: Let_def)
      from Cons.prems(1) Some True files obtain g1 p1
        where one: "scanFiles rt six fs ?path (g, ?p) files = Normal (g1, p1)"
          and rest: "scanDirs rt six fs projectsDir (g1, assign projectMap projectDir p1) dirs
                       = Normal (g', projectMap')"
        by (cases "scanFiles rt six fs ?path (g, ?p) files")
           (auto simp: Let_def split: prod.splits)
      from scanFiles_grownBy [OF one Cons.prems(2)]
      have a: "grownBy
                 (length (filter (inWindow rt six)
                    (concat (map (\<lambda>file. parseJsonl rt fs (pathJoin rt [?path, file]))
                               (filter (\<lambda>file. endsWith file ''.jsonl'') files)))))
                 g g1" .
      from Cons.IH [OF rest grownBy_present [OF a]] grownBy_trans [OF a] Some True files
      show ?thesis by (simp add: Let_def comp_def)
    qed
  qed
qed

lemma scanProjects_grownBy:
  assumes "scanProjects rt six fs projectsDir g = Normal (g', projectMap)" and "bucketsPresent g"
  shows "grownBy (length (filter (inWindow rt six) (scannedLines rt fs projectsDir))) g g'"
proof (cases "readdirSync fs projectsDir")
  case None
  with assms(1) show ?thesis by (simp add: scanProjects_def)
next
  case (Some dirs)
  with assms(1) have "scanDirs rt six fs projectsDir (g, []) dirs = Normal (g', projectMap)"
    by (simp add: scanProjects_def)
  from scanDirs_grownBy [OF this assms(2)] Some show ?thesis
    by (simp add: scannedLines_def)
qed

lemma length_setHour: "length arr \<le> length (setHour idx count arr)"
  by (simp add: setHour_def split: option.splits)

lemma length_foldl_setHour:
  "length arr \<le> length (foldl (\<lambda>arr kv. setHour (parseInt rt (fst kv)) (snd kv) arr) arr kvs)"
proof (induction kvs arbitrary: arr)
  case Nil
  show ?case by simp
next
  case (Cons kv kvs)
  from length_setHour [of arr "parseInt rt (fst kv)" "snd kv"]
    Cons.IH [of "setHour (parseInt rt (fst kv)) (snd kv) arr"]
  show ?case by simp
qed

lemma seedHourly_initial:
  "bucketsPresent (seedHourly rt hourCounts initialGlobals)"
  "weekdayTotal (seedHourly rt hourCounts initialGlobals) = 0"
  "hourlyTotal (seedHourly rt None initialGlobals) = 0"
  using length_foldl_setHour [of "replicate 24 0" rt]
  by (auto simp: seedHourly_def initialGlobals_def bucketsPresent_def weekdayTotal_def
        hourlyTotal_def split: option.splits)

lemma exampleSeeded_eq:
  "exampleSeeded = initialGlobals\<lparr>hourlyActivity := (replicate 24 0)[3 := 5]\<rparr>"
  by (simp add: exampleSeeded_def seedHourly_def ownEntries_def isArrayIndex_def isDigit_def
        decimalValue_def setHour_def exampleRuntime_def initialGlobals_def)

lemma exampleSeeded_total: "hourlyTotal exampleSeeded = 5" "weekdayTotal exampleSeeded = 0"
  by (simp_all add: exampleSeeded_eq hourlyTotal_def weekdayTotal_def initialGlobals_def
        eval_nat_numeral)

lemma exampleTree_lines:
  "parseJsonl exampleRuntime exampleTree ''projects/p/a.jsonl''
     = [JObj [(''timestamp'', JNum 7200000)], JObj [(''timestamp'', JNum (- 1))], JObj []]"
  by (simp add: parseJsonl_def exampleTree_def exampleFs_def exampleRuntime_def exampleParse_def
        nonBlank_def trim_def isWhiteSpace_def)

lemma exampleTree_scanned:
  "scannedLines exampleRuntime exampleTree ''projects''
     = [JObj [(''timestamp'', JNum 7200000)], JObj [(''timestamp'', JNum (- 1))], JObj []]"
proof -
  have "sessionFilesOf exampleRuntime exampleTree ''projects'' [''p''] = [''projects/p/a.jsonl'']"
    by (simp add: exampleTree_def exampleFs_def exampleRuntime_def endsWith_def)
  moreover have "readdirSync exampleTree ''projects'' = Some [''p'']"
    by (simp add: exampleTree_def exampleFs_def)
  ultimately show ?thesis
    by (simp add: scannedLines_def exampleTree_lines)
qed

lemma exampleTree_inWindow:
  "length (filter (inWindow exampleRuntime 0) (scannedLines exampleRuntime exampleTree ''projects'')) = 1"
  unfolding exampleTree_scanned by (simp add: inWindow_def exampleRuntime_def)

lemma exampleTree_scan:
  "\<exists>g' projectMap.
     scanProjects exampleRuntime 0 exampleTree ''projects'' exampleSeeded = Normal (g', projectMap)"
proof -
  have wf: "list_all wellFormedRecord
              [JObj [(''timestamp'', JNum 7200000)], JObj [(''timestamp'', JNum (- 1))], JObj []]"
    by (simp add: wellFormedRecord_def blocksOK_def modelOK_def)
  from processLines_Normal [OF wf, of exampleRuntime 0 "(exampleSeeded, newSession)"]
  obtain gs where gs: "processLines exampleRuntime 0 (exampleSeeded, newSession)
        [JObj [(''timestamp'', JNum 7200000)], JObj [(''timestamp'', JNum (- 1))], JObj []]
      = Normal gs"
    by blast
  have p: "pathJoin exampleRuntime [''projects'', ''p''] = ''projects/p''"
    "pathJoin exampleRuntime [''projects/p'', ''a.jsonl''] = ''projects/p/a.jsonl''"
    "pathJoin exampleRuntime [''projects/p'', ''notes.txt''] = ''projects/p/notes.txt''"
    by (simp_all add: exampleRuntime_def)
  have f: "readdirSync exampleTree ''projects'' = Some [''p'']"
    "readdirSync exampleTree ''projects/p'' = Some [''a.jsonl'', ''notes.txt'']"
    "isDirectory exampleTree ''projects/p'' = Some True"
    by (simp_all add: exampleTree_def exampleFs_def)
  have e: "endsWith ''a.jsonl'' ''.jsonl''" "\<not> endsWith ''notes.txt'' ''.jsonl''"
    by (simp_all add: endsWith_def)
  show ?thesis
    by (cases gs)
       (simp add: scanProjects_def p f e exampleTree_lines processSession_def gs
          del: processLines.simps)
qed

text \<open>
  C2, as the claim states it, fails for the hourly buckets: with the cache's count of 5
  for the hour 3 and no session file at all, the scan completes, the hourly buckets sum
  to 5, and no record was scanned.
\<close>

theorem hourly_buckets_start_from_cache:
  "scanProjects exampleRuntime 0 (exampleFs [(''projects'', [])] []) ''projects'' exampleSeeded
     = Normal (exampleSeeded, [])
   \<and> sum_list (take 24 (hourlyActivity exampleSeeded)) = 5
   \<and> length (hourlyActivity exampleSeeded) = 24
   \<and> length (filter (inWindow exampleRuntime 0)
         (scannedLines exampleRuntime (exampleFs [(''projects'', [])] []) ''projects'')) = 0"
  using exampleSeeded_total(1)
  by (simp add: scanProjects_def scannedLines_def exampleFs_def hourlyTotal_def)
     (simp add: exampleSeeded_eq initialGlobals_def)

text \<open>
  C2, amended: the scan starts from the data as the cache left them, whose hourly
  buckets are the initial zeros overwritten by the cache's \<open>hourCounts\<close> and whose
  weekday buckets are zero. When the scan of the projects directory completes, the 24
  hourly buckets sum to what the cache put there plus the number of scanned records that
  carry a timestamp within the retention window (truthy, a valid date, not before
  \<open>SIX_MONTHS_AGO\<close>), and the 7 weekday buckets sum to that number; without
  \<open>hourCounts\<close> in the cache both sums are that number. Records without a timestamp or
  with one before the window are counted in neither.
\<close>

theorem buckets_count_records_in_window:
  assumes "scanProjects rt six fs projectsDir g = Normal (g', projectMap)"
    and "hourlyActivity g = hourlyActivity (seedHourly rt hourCounts initialGlobals)"
    and "weekdayActivity g = weekdayActivity initialGlobals"
  shows "hourlyTotal g'
           = hourlyTotal (seedHourly rt hourCounts initialGlobals)
             + length (filter (inWindow rt six) (scannedLines rt fs projectsDir))
         \<and> weekdayTotal g' = length (filter (inWindow rt six) (scannedLines rt fs projectsDir))
         \<and> (hourCounts = None \<longrightarrow>
              hourlyTotal g' = length (filter (inWindow rt six) (scannedLines rt fs projectsDir)))"
proof -
  have w: "weekdayActivity (seedHourly rt hourCounts initialGlobals) = weekdayActivity initialGlobals"
    by (simp add: seedHourly_def split: option.splits)
  from assms(2,3) w seedHourly_initial(1) [of rt hourCounts]
  have present: "bucketsPresent g"
    by (simp add: bucketsPresent_def)
  from assms(2,3) w seedHourly_initial(2) [of rt hourCounts]
  have start: "hourlyTotal g = hourlyTotal (seedHourly rt hourCounts initialGlobals)"
    "weekdayTotal g = 0"
    by (simp_all add: hourlyTotal_def weekdayTotal_def)
  from scanProjects_grownBy [OF assms(1) present] start show ?thesis
    by (auto simp: grownBy_def seedHourly_initial)
qed

theorem buckets_count_witness:
  "\<exists>g' projectMap.
     scanProjects exampleRuntime 0 exampleTree ''projects'' exampleSeeded = Normal (g', projectMap)
     \<and> hourlyTotal g' = 6 \<and> weekdayTotal g' = 1"
proof -
  from exampleTree_scan obtain g' projectMap
    where run: "scanProjects exampleRuntime 0 exampleTree ''projects'' exampleSeeded
                = Normal (g', projectMap)"
    by blast
  have w: "weekdayActivity exampleSeeded = weekdayActivity initialGlobals"
    by (simp add: exampleSeeded_eq)
  from buckets_count_records_in_window
         [OF run, of "Some [(''3'', 5)]", folded exampleSeeded_def, OF refl w]
  have "hourlyTotal g' = 6 \<and> weekdayTotal g' = 1"
    using exampleSeeded_total(1) by (simp add: exampleTree_inWindow)
  with run show ?thesis by blast
qed

section \<open>Properties of the cost estimate\<close>

lemma PRICING_rows:
  "map_of PRICING ''claude-opus-4-5-20251101''
     = Some \<lparr>rate_input = 15, rate_output = 75, rate_cacheRead = 15 / 10, rate_cacheWrite = 1875 / 100\<rparr>"
  "map_of PRICING ''default''
     = Some \<lparr>rate_input = 3, rate_output = 15, rate_cacheRead = 3 / 10, rate_cacheWrite = 375 / 100\<rparr>"
  by (simp_all add: PRICING_def)

lemma foldl_add_sum_list:
  "foldl (\<lambda>total kv. total + f kv) (a::rat) kvs = a + sum_list (map f kvs)"
  by (induction kvs arbitrary: a) simp_all

text \<open>
  C3, as the claim states it, fails in the privacy-safe generator (and in the server's
  summary): for a million cache-write tokens of an Opus model, and no others, the sum
  over the four token categories is 18.75, and the estimated cost that is written for
  the model's display name is 0.
\<close>

theorem summary_cost_omits_cache_write:
  "modelCostSum ''claude-opus-4-5-20251101''
     \<lparr>usage_inputTokens = 0, usage_outputTokens = 0, cacheReadInputTokens = 0,
      cacheCreationInputTokens = 1000000\<rparr> = 0
   \<and> shortNameSafe ''claude-opus-4-5-20251101'' = ''Claude Opus''
   \<and> modelCost ''Claude Opus''
         \<lparr>inputTokens = 0, outputTokens = 0, cacheRead = 0, cacheWrite = 1000000, sessions = 0\<rparr>
       = 1875 / 100"
  by (simp add: modelCostSum_def inputCost_def outputCost_def cacheCost_def shortNameSafe_def
        modelCost_def pricingFor_def PRICING_rows)

text \<open>
  C3, amended: in the comprehensive generator the cost of a model display name is the
  sum over the four token categories of the tokens divided by one million times the
  category's rate, with the rates of the Opus row of the price table when the name
  contains \<open>Opus\<close> and those of the default row otherwise, and the estimated cost is the
  sum of these costs over the display names. In the privacy-safe generator and in the
  server's summary the estimated cost of a model is the sum over three categories only,
  input, output and cache-read, with the Opus rates when the model identifier contains
  \<open>opus\<close> and the default rates otherwise; cache-write tokens cost nothing there.
  (Numbers are exact rationals here; the scripts compute the same expressions in
  floating point.)
\<close>

theorem cost_is_sum_over_token_categories:
  "modelCost model usage
     = (if str_includes model ''Opus''
        then inputTokens usage / 1000000 * 15 + outputTokens usage / 1000000 * 75
             + cacheRead usage / 1000000 * (15 / 10) + cacheWrite usage / 1000000 * (1875 / 100)
        else inputTokens usage / 1000000 * 3 + outputTokens usage / 1000000 * 15
             + cacheRead usage / 1000000 * (3 / 10) + cacheWrite usage / 1000000 * (375 / 100))
   \<and> map_of PRICING (if str_includes model ''Opus'' then ''claude-opus-4-5-20251101'' else ''default'')
       = Some (pricingFor model)
   \<and> estimatedCostUSD g
       = sum_list (map (\<lambda>kv. modelCost (fst kv) (snd kv)) (ownEntries (modelUsage g)))
   \<and> modelCostSum rawModel cached
       = (if str_includes rawModel ''opus''
          then usage_inputTokens cached / 1000000 * 15 + usage_outputTokens cached / 1000000 * 75
               + cacheReadInputTokens cached / 1000000 * (15 / 10)
          else usage_inputTokens cached / 1000000 * 3 + usage_outputTokens cached / 1000000 * 15
               + cacheReadInputTokens cached / 1000000 * (3 / 10))"
  by (simp add: modelCost_def pricingFor_def PRICING_rows estimatedCostUSD_def
        foldl_add_sum_list modelCostSum_def inputCost_def outputCost_def cacheCost_def)

theorem cost_witness:
  "modelCost ''Claude Opus 4.5''
     \<lparr>inputTokens = 1000000, outputTokens = 2000000, cacheRead = 10000000, cacheWrite = 4000000,
      sessions = 3\<rparr> = 255
   \<and> modelCost ''Claude Sonnet 4.5''
     \<lparr>inputTokens = 1000000, outputTokens = 2000000, cacheRead = 10000000, cacheWrite = 4000000,
      sessions = 3\<rparr> = 51
   \<and> modelCostSum ''claude-opus-4-5-20251101''
     \<lparr>usage_inputTokens = 1000000, usage_outputTokens = 2000000,
      cacheReadInputTokens = 10000000, cacheCreationInputTokens = 4000000\<rparr> = 180"
  using cost_is_sum_over_token_categories
          [of "''Claude Opus 4.5''"
              "\<lparr>inputTokens = 1000000, outputTokens = 2000000, cacheRead = 10000000,
                cacheWrite = 4000000, sessions = 3\<rparr>"
              initialGlobals "''claude-opus-4-5-20251101''"
              "\<lparr>usage_inputTokens = 1000000, usage_outputTokens = 2000000,
                cacheReadInputTokens = 10000000, cacheCreationInputTokens = 4000000\<rparr>"]
        cost_is_sum_over_token_categories
          [of "''Claude Sonnet 4.5''"
              "\<lparr>inputTokens = 1000000, outputTokens = 2000000, cacheRead = 10000000,
                cacheWrite = 4000000, sessions = 3\<rparr>"
              initialGlobals "''x''"
              "\<lparr>usage_inputTokens = 0, usage_outputTokens = 0,
                cacheReadInputTokens = 0, cacheCreationInputTokens = 0\<rparr>"]
  by simp

section \<open>Properties of the ranking\<close>

lemma length_assign: "length (assign obj k v) \<le> Suc (length obj)"
  by (induction obj) auto

lemma length_assignOwn: "length (assignOwn obj k v) \<le> Suc (length obj)"
  using length_assign [of obj k v] by (simp add: assignOwn_def)

lemma length_foldl_assign:
  "length (foldl (\<lambda>obj kv. assignOwn obj (fst kv) (snd kv)) obj es) \<le> length obj + length es"
proof (induction es arbitrary: obj)
  case Nil
  show ?case by simp
next
  case (Cons e es)
  from Cons.IH [of "assignOwn obj (fst e) (snd e)"] length_assignOwn [of obj "fst e" "snd e"]
  show ?case by simp
qed

lemma length_topEntries: "length (topEntries rt n counts) \<le> n"
  using length_foldl_assign [of "[]" "take n (sortByCountDesc rt (ownEntries counts))"]
  by (simp add: topEntries_def fromEntries_def)

lemma length_projects: "length (projects projectMap) \<le> 10"
  by (simp add: projects_def)

lemma projects_sorted:
  "sorted (map (\<lambda>p. - int (out_sessions p)) (projects projectMap))"
  unfolding projects_def
  by (simp add: take_map [symmetric] sorted_wrt_take del: take_map)

lemma single_branch_session:
  "processSession exampleRuntime 0 [JObj [(''gitBranch'', JStr b)]] filename (g, None)
     = (if b = [] then Normal (g, None)
        else Normal (g\<lparr>branchCounts := increment exampleRuntime (branchCounts g) b\<rparr>, None))"
  by (simp add: processSession_def processLine_def trackTimestamp_def countMessage_def
        isMessage_def trackBranch_def countToolCalls_def trackModel_def newSession_def)

lemma exampleBranches_reached:
  "andThen (processSession exampleRuntime 0 [JObj [(''gitBranch'', JStr ''main'')]] ''a.jsonl''
             (initialGlobals, None))
     (\<lambda>gp. andThen (processSession exampleRuntime 0 [JObj [(''gitBranch'', JStr ''main'')]]
                        ''b.jsonl'' gp)
        (processSession exampleRuntime 0 [JObj [(''gitBranch'', JStr ''2024'')]] ''c.jsonl''))
   = Normal (exampleBranches, None)"
  by (simp add: single_branch_session increment_def assignOwn_def objectPrototypeNames_def
        exampleBranches_def initialGlobals_def)

text \<open>
  C6 at the failing input: after two sessions on the branch \<open>main\<close> and one on the
  branch \<open>2024\<close>, the entries are sorted and truncated as the claim says, but the object
  built from them lists the array-index key \<open>2024\<close> first, so that the git-branches map
  of the artifact runs 1, 2: it is not in non-increasing order of count.
\<close>

theorem git_branches_listed_out_of_order:
  "andThen (processSession exampleRuntime 0 [JObj [(''gitBranch'', JStr ''main'')]] ''a.jsonl''
             (initialGlobals, None))
     (\<lambda>gp. andThen (processSession exampleRuntime 0 [JObj [(''gitBranch'', JStr ''main'')]]
                        ''b.jsonl'' gp)
        (processSession exampleRuntime 0 [JObj [(''gitBranch'', JStr ''2024'')]] ''c.jsonl''))
   = Normal (exampleBranches, None)
   \<and> take 15 (sortByCountDesc exampleRuntime (ownEntries (branchCounts exampleBranches)))
       = [(''main'', CNum 2), (''2024'', CNum 1)]
   \<and> ownEntries (gitBranches exampleRuntime exampleBranches)
       = [(''2024'', CNum 1), (''main'', CNum 2)]"
proof -
  have idx: "isArrayIndex ''2024''" "\<not> isArrayIndex ''main''"
    by (simp_all add: isArrayIndex_def isDigit_def decimalValue_def)
  have "take 15 (sortByCountDesc exampleRuntime (ownEntries (branchCounts exampleBranches)))
          = [(''main'', CNum 2), (''2024'', CNum 1)]"
    by (simp add: exampleBranches_def sortByCountDesc_def ownEntries_def idx)
  moreover have "ownEntries (gitBranches exampleRuntime exampleBranches)
                   = [(''2024'', CNum 1), (''main'', CNum 2)]"
    by (simp add: gitBranches_def topEntries_def fromEntries_def assignOwn_def
          exampleBranches_def sortByCountDesc_def ownEntries_def idx)
  ultimately show ?thesis using exampleBranches_reached by simp
qed

section \<open>Properties of the server's handlers\<close>

lemma examplePaths:
  "pathJoin exampleRuntime [''projects'', ''p'', ''abc.jsonl''] = ''projects/p/abc.jsonl''"
  "pathJoin exampleRuntime [''projects'', ''p'', ''0123456789.jsonl''] = ''projects/p/0123456789.jsonl''"
  "pathJoin exampleRuntime [''projects'', ''p'', ''agent-01234567.jsonl'']
     = ''projects/p/agent-01234567.jsonl''"
  by (simp_all add: exampleRuntime_def)

text \<open>
  The statistics handler does what C8 says: when the cache cannot be read or cannot be
  parsed, it answers with status 500 and a JSON error object.
\<close>

lemma statsHandler_failure:
  assumes "readFileSync fs STATS_CACHE = None
           \<or> (\<exists>text. readFileSync fs STATS_CACHE = Some text \<and> JSON_parse rt text = None)"
  shows "\<exists>details. statsHandler rt fs STATS_CACHE
                      = Response 500 (errorBody ''Failed to read stats'' details)"
  using assms by (auto simp: statsHandler_def)

text \<open>
  C8 at the failing input: when the session file exists and cannot be read, the
  single-session lookup answers with status 200 and an empty list, although its own
  \<open>catch\<close> branch is there to answer 500 with the error \<open>Failed to read session\<close>: the
  parser has swallowed the failure before the handler can see it.
\<close>

theorem session_handler_answers_200_when_unreadable:
  "existsSync unreadableFs ''projects/p/abc.jsonl''
   \<and> readFileSync unreadableFs ''projects/p/abc.jsonl'' = None
   \<and> sessionHandler exampleRuntime unreadableFs ''projects'' ''p'' ''abc''
       = (Response 200 (JArr []),
          [Exists ''projects/p/abc.jsonl'', Read ''projects/p/abc.jsonl''])"
  by (simp add: sessionHandler_def examplePaths parseJSONL_def unreadableFs_def Let_def)

text \<open>
  C10: when the file \<open><sessionId>.jsonl\<close> does not exist in the project directory, the
  handler asks for \<open>agent-\<close> followed by the first 8 characters of the session
  identifier and \<open>.jsonl\<close>, and for nothing else: it answers with that file's parsed
  entries when it exists and with status 404 and a JSON error object when it does not.
  Two session identifiers that agree on their first 8 characters, neither with a file
  of its own, get the same answer.
\<close>

theorem session_fallback_uses_first_eight_characters:
  assumes "\<not> existsSync fs (pathJoin rt [PROJECTS_DIR, project, sessionId @ ''.jsonl''])"
  shows "sessionHandler rt fs PROJECTS_DIR project sessionId
           = (if existsSync fs
                   (pathJoin rt [PROJECTS_DIR, project, ''agent-'' @ take 8 sessionId @ ''.jsonl''])
              then (Response 200
                      (JArr (parseJSONL rt fs
                         (pathJoin rt [PROJECTS_DIR, project,
                                       ''agent-'' @ take 8 sessionId @ ''.jsonl'']))),
                    [Exists (pathJoin rt [PROJECTS_DIR, project, sessionId @ ''.jsonl'']),
                     Exists (pathJoin rt [PROJECTS_DIR, project,
                                          ''agent-'' @ take 8 sessionId @ ''.jsonl'']),
                     Read (pathJoin rt [PROJECTS_DIR, project,
                                        ''agent-'' @ take 8 sessionId @ ''.jsonl''])])
              else (Response 404 (JObj [(''error'', JStr ''Session not found'')]),
                    [Exists (pathJoin rt [PROJECTS_DIR, project, sessionId @ ''.jsonl'']),
                     Exists (pathJoin rt [PROJECTS_DIR, project,
                                          ''agent-'' @ take 8 sessionId @ ''.jsonl''])]))
         \<and> set (tl (snd (sessionHandler rt fs PROJECTS_DIR project sessionId)))
             \<subseteq> {Exists (pathJoin rt [PROJECTS_DIR, project,
                                      ''agent-'' @ take 8 sessionId @ ''.jsonl'']),
                  Read (pathJoin rt [PROJECTS_DIR, project,
                                    ''agent-'' @ take 8 sessionId @ ''.jsonl''])}
         \<and> (take 8 other = take 8 sessionId
              \<and> \<not> existsSync fs (pathJoin rt [PROJECTS_DIR, project, other @ ''.jsonl''])
              \<longrightarrow> fst (sessionHandler rt fs PROJECTS_DIR project other)
                    = fst (sessionHandler rt fs PROJECTS_DIR project sessionId))"
  using assms by (simp add: sessionHandler_def Let_def)

theorem session_fallback_witness:
  "\<not> existsSync agentFs (pathJoin exampleRuntime [''projects'', ''p'', ''0123456789'' @ ''.jsonl''])
   \<and> sessionHandler exampleRuntime agentFs ''projects'' ''p'' ''0123456789''
       = (Response 200 (JArr [JObj []]),
          [Exists ''projects/p/0123456789.jsonl'', Exists ''projects/p/agent-01234567.jsonl'',
           Read ''projects/p/agent-01234567.jsonl''])
   \<and> fst (sessionHandler exampleRuntime agentFs ''projects'' ''p'' ''01234567-other'')
       = Response 200 (JArr [JObj []])"
proof -
  have ex: "\<not> existsSync agentFs ''projects/p/0123456789.jsonl''"
    "\<not> existsSync agentFs ''projects/p/01234567-other.jsonl''"
    "existsSync agentFs ''projects/p/agent-01234567.jsonl''"
    by (simp_all add: agentFs_def exampleFs_def)
  have p: "pathJoin exampleRuntime [''projects'', ''p'', ''01234567-other.jsonl'']
             = ''projects/p/01234567-other.jsonl''"
    by (simp add: exampleRuntime_def)
  have entries: "parseJSONL exampleRuntime agentFs ''projects/p/agent-01234567.jsonl'' = [JObj []]"
    by (simp add: parseJSONL_def agentFs_def exampleFs_def exampleRuntime_def exampleParse_def
          nonBlank_def trim_def isWhiteSpace_def)
  from session_fallback_uses_first_eight_characters
         [of agentFs exampleRuntime "''projects''" "''p''" "''0123456789''" "''01234567-other''"]
  show ?thesis
    by (simp add: examplePaths p ex entries)
qed

end
